theory Spec2Isabelle
  imports Complex_Main "HOL-Library.Sublist" "HOL-Library.Multiset" "HOL-Library.AList"
begin

section \<open>Python values used by the pipeline\<close>

text \<open>
  Exceptions are values. Only the exception classes that the modelled functions can raise
  are listed.
\<close>

datatype error =
    ZeroDivisionError
  | KeyError string
  | IndexError
  | TypeError
  | ValueError
  | OverflowError

text \<open>True division \<open>a / b\<close> on numbers raises when the divisor is zero.\<close>

definition py_div :: "real \<Rightarrow> real \<Rightarrow> error + real" where
  "py_div a b = (if b = 0 then Inl ZeroDivisionError else Inr (a / b))"

text \<open>
  \<open>round(x, n)\<close> rounds to \<open>n\<close> decimal places, an exact tie going to the even
  neighbour. Numbers are modelled as reals: the binary representation of Python's floats
  is not part of the model.
\<close>

definition round_half_even :: "real \<Rightarrow> int" where
  "round_half_even x =
     (let f = \<lfloor>x\<rfloor>; d = x - of_int f
      in if d < 1 / 2 then f
         else if 1 / 2 < d then f + 1
         else if even f then f else f + 1)"

definition py_round :: "real \<Rightarrow> nat \<Rightarrow> real" where
  "py_round x n = of_int (round_half_even (x * 10 ^ n)) / 10 ^ n"

subsection \<open>Strings\<close>

text \<open>
  \<open>str.upper\<close>, \<open>str.lower\<close> and \<open>str.strip\<close> on ASCII text. Characters outside
  ASCII are left alone by the case mappings and are not white space.
\<close>

definition upper_char :: "char \<Rightarrow> char" where
  "upper_char c =
     (case map_of (zip ''abcdefghijklmnopqrstuvwxyz'' ''ABCDEFGHIJKLMNOPQRSTUVWXYZ'') c of
        Some u \<Rightarrow> u | None \<Rightarrow> c)"

definition lower_char :: "char \<Rightarrow> char" where
  "lower_char c =
     (case map_of (zip ''ABCDEFGHIJKLMNOPQRSTUVWXYZ'' ''abcdefghijklmnopqrstuvwxyz'') c of
        Some l \<Rightarrow> l | None \<Rightarrow> c)"

definition upper :: "string \<Rightarrow> string" where
  "upper s = map upper_char s"

definition lower :: "string \<Rightarrow> string" where
  "lower s = map lower_char s"

definition is_space :: "char \<Rightarrow> bool" where
  "is_space c \<longleftrightarrow>
     c \<in> set [CHR 0x09, CHR 0x0A, CHR 0x0B, CHR 0x0C, CHR 0x0D,
               CHR 0x1C, CHR 0x1D, CHR 0x1E, CHR 0x1F, CHR 0x20]"

definition strip :: "string \<Rightarrow> string" where
  "strip s = rev (dropWhile is_space (rev (dropWhile is_space s)))"

text \<open>\<open>a in b\<close> on strings: \<open>a\<close> occurs in \<open>b\<close> as a contiguous run.\<close>

fun str_in :: "string \<Rightarrow> string \<Rightarrow> bool" where
  "str_in a [] = (a = [])"
| "str_in a (c # cs) = (prefix a (c # cs) \<or> str_in a cs)"

section \<open>normalization/gpu\_specs.py\<close>

record gpu_spec =
  tflops_fp32 :: real
  tflops_fp16 :: real
  tflops_tensor :: real
  memory_gb :: nat
  architecture :: string
  release_year :: nat
  tdp_watts :: nat

text \<open>The table \<open>GPU_SPECS\<close>, in the order in which the dictionary literal lists its keys.\<close>

definition GPU_SPECS :: "(string \<times> gpu_spec) list" where
  "GPU_SPECS =
    [(''H100'', \<lparr>tflops_fp32 = 51.2, tflops_fp16 = 989, tflops_tensor = 1979, memory_gb = 80,
        architecture = ''Hopper'', release_year = 2022, tdp_watts = 700\<rparr>),
     (''A100'', \<lparr>tflops_fp32 = 19.5, tflops_fp16 = 312, tflops_tensor = 624, memory_gb = 80,
        architecture = ''Ampere'', release_year = 2020, tdp_watts = 400\<rparr>),
     (''A100-40GB'', \<lparr>tflops_fp32 = 19.5, tflops_fp16 = 312, tflops_tensor = 624, memory_gb = 40,
        architecture = ''Ampere'', release_year = 2020, tdp_watts = 250\<rparr>),
     (''V100'', \<lparr>tflops_fp32 = 15.7, tflops_fp16 = 125, tflops_tensor = 125, memory_gb = 32,
        architecture = ''Volta'', release_year = 2017, tdp_watts = 300\<rparr>),
     (''A10'', \<lparr>tflops_fp32 = 31.2, tflops_fp16 = 125, tflops_tensor = 250, memory_gb = 24,
        architecture = ''Ampere'', release_year = 2021, tdp_watts = 150\<rparr>),
     (''T4'', \<lparr>tflops_fp32 = 8.1, tflops_fp16 = 65, tflops_tensor = 130, memory_gb = 16,
        architecture = ''Turing'', release_year = 2018, tdp_watts = 70\<rparr>),
     (''L40'', \<lparr>tflops_fp32 = 90.5, tflops_fp16 = 181, tflops_tensor = 362, memory_gb = 48,
        architecture = ''Ada Lovelace'', release_year = 2022, tdp_watts = 300\<rparr>),
     (''RTX 4090'', \<lparr>tflops_fp32 = 82.6, tflops_fp16 = 165.2, tflops_tensor = 661, memory_gb = 24,
        architecture = ''Ada Lovelace'', release_year = 2022, tdp_watts = 450\<rparr>),
     (''RTX 3090'', \<lparr>tflops_fp32 = 35.6, tflops_fp16 = 71, tflops_tensor = 142, memory_gb = 24,
        architecture = ''Ampere'', release_year = 2020, tdp_watts = 350\<rparr>),
     (''RTX 3080'', \<lparr>tflops_fp32 = 29.8, tflops_fp16 = 59.5, tflops_tensor = 119, memory_gb = 10,
        architecture = ''Ampere'', release_year = 2020, tdp_watts = 320\<rparr>),
     (''RTX 6000 Ada'', \<lparr>tflops_fp32 = 91.1, tflops_fp16 = 182, tflops_tensor = 728, memory_gb = 48,
        architecture = ''Ada Lovelace'', release_year = 2022, tdp_watts = 300\<rparr>)]"

text \<open>
  \<open>get_gpu_specs\<close>: the model name is upper-cased and stripped, looked up directly, and
  otherwise compared with every key of the table in turn, the first key that occurs in it
  winning.
\<close>

definition get_gpu_specs :: "string \<Rightarrow> gpu_spec option" where
  "get_gpu_specs gpu_model =
     (let normalized = strip (upper gpu_model)
      in case map_of GPU_SPECS normalized of
           Some specs \<Rightarrow> Some specs
         | None \<Rightarrow>
             (case find (\<lambda>(spec_name, specs). str_in spec_name normalized) GPU_SPECS of
                Some (spec_name, specs) \<Rightarrow> Some specs
              | None \<Rightarrow> None))"

definition get_all_gpu_models :: "string list" where
  "get_all_gpu_models = map fst GPU_SPECS"

text \<open>
  \<open>get_tflops\<close>: the key \<open>"tflops_" + precision.lower()\<close> is read from the profile with
  \<open>dict.get\<close>. The three keys below are the only keys of a profile that start with
  \<open>tflops_\<close>, so every other precision gives \<open>None\<close>.
\<close>

definition get_tflops :: "string \<Rightarrow> string \<Rightarrow> real option" where
  "get_tflops gpu_model precision =
     (case get_gpu_specs gpu_model of
        None \<Rightarrow> None
      | Some specs \<Rightarrow>
          (let key = ''tflops_'' @ lower precision
           in if key = ''tflops_fp32'' then Some (tflops_fp32 specs)
              else if key = ''tflops_fp16'' then Some (tflops_fp16 specs)
              else if key = ''tflops_tensor'' then Some (tflops_tensor specs)
              else None))"

section \<open>Quotes and the object store\<close>

text \<open>
  A price entry is a Python dictionary. The record gives the keys the pipeline reads or
  writes; a field read with \<open>dict.get\<close> is \<open>None\<close> when the key is missing (or holds
  \<open>None\<close>). The last five fields are the ones normalization writes.
\<close>

record quote =
  provider :: string
  region :: string
  gpu_model :: "string option"
  price_per_hour :: "real option"
  availability :: "real option"
  timestamp :: string
  normalized :: "bool option"
  tflops :: "real option"
  cost_per_tflop :: "real option"
  cost_performance_score :: "real option"
  precision :: "string option"

text \<open>
  Dictionaries are objects: a list of prices is a list of references, and a function that
  assigns to \<open>price[...]\<close> changes the object every holder of the reference sees. The
  store maps a reference to the current contents of its dictionary.
\<close>

type_synonym ref = nat

type_synonym heap = "ref \<Rightarrow> quote"

section \<open>normalization/normalize.py\<close>

text \<open>
  The contents \<open>normalize_price\<close> leaves in the dictionary it is given: \<open>Inr None\<close>
  when it returns \<open>None\<close> without writing, \<open>Inr (Some q)\<close> when it returns the
  dictionary, whose contents are then \<open>q\<close>. Every division is evaluated before the first
  assignment of its branch, so an exception would leave the dictionary as it was.
\<close>

definition normalize_price_fields :: "quote \<Rightarrow> string \<Rightarrow> bool \<Rightarrow> error + quote option" where
  "normalize_price_fields price prec include_availability =
     (case gpu_model price of
        None \<Rightarrow> Inr None
      | Some gm \<Rightarrow>
          if gm = [] then Inr None
          else
            (case get_gpu_specs gm of
               None \<Rightarrow>
                 Inr (Some (price\<lparr>normalized := Some False, tflops := None,
                                   cost_per_tflop := None, cost_performance_score := None\<rparr>))
             | Some specs \<Rightarrow>
                 (case get_tflops gm prec of
                    None \<Rightarrow> Inr (Some (price\<lparr>normalized := Some False\<rparr>))
                  | Some tf \<Rightarrow>
                      if tf = 0 then Inr (Some (price\<lparr>normalized := Some False\<rparr>))
                      else
                        (let pph = (case price_per_hour price of None \<Rightarrow> 0 | Some p \<Rightarrow> p);
                             avail = (case availability price of None \<Rightarrow> 1 | Some a \<Rightarrow> a)
                         in case py_div pph tf of
                              Inl e \<Rightarrow> Inl e
                            | Inr cpt \<Rightarrow>
                                (case (if include_availability
                                       then (if 0 < pph
                                             then (case py_div tf pph of
                                                     Inl e \<Rightarrow> Inl e
                                                   | Inr r \<Rightarrow> Inr (r * avail))
                                             else Inr 0)
                                       else (if 0 < pph then py_div tf pph else Inr 0)) of
                                   Inl e \<Rightarrow> Inl e
                                 | Inr score \<Rightarrow>
                                     Inr (Some (price\<lparr>normalized := Some True,
                                                       tflops := Some (py_round tf 2),
                                                       cost_per_tflop := Some (py_round cpt 4),
                                                       cost_performance_score := Some (py_round score 4),
                                                       precision := Some prec\<rparr>)))))))"

text \<open>
  \<open>normalize_price\<close> on the store: the writes go to the dictionary passed in, and the
  value returned is that same reference.
\<close>

definition normalize_price :: "heap \<Rightarrow> ref \<Rightarrow> string \<Rightarrow> bool \<Rightarrow> heap \<times> (error + ref option)" where
  "normalize_price h price prec include_availability =
     (case normalize_price_fields (h price) prec include_availability of
        Inl e \<Rightarrow> (h, Inl e)
      | Inr None \<Rightarrow> (h, Inr None)
      | Inr (Some q) \<Rightarrow> (h(price := q), Inr (Some price)))"

text \<open>
  \<open>normalize_prices\<close>: the loop appends every result that is truthy. A dictionary
  returned by \<open>normalize_price\<close> holds the key \<open>normalized\<close>, so it is never empty and
  always appended; \<open>None\<close> is skipped.
\<close>

fun normalize_loop ::
  "heap \<Rightarrow> ref list \<Rightarrow> string \<Rightarrow> bool \<Rightarrow> ref list \<Rightarrow> heap \<times> (error + ref list)" where
  "normalize_loop h [] prec ia acc = (h, Inr acc)"
| "normalize_loop h (price # rest) prec ia acc =
     (case normalize_price h price prec ia of
        (h', Inl e) \<Rightarrow> (h', Inl e)
      | (h', Inr None) \<Rightarrow> normalize_loop h' rest prec ia acc
      | (h', Inr (Some norm_price)) \<Rightarrow> normalize_loop h' rest prec ia (acc @ [norm_price]))"

definition normalize_prices ::
  "heap \<Rightarrow> ref list \<Rightarrow> string \<Rightarrow> bool \<Rightarrow> heap \<times> (error + ref list)" where
  "normalize_prices h prices prec include_availability =
     normalize_loop h prices prec include_availability []"

section \<open>analytics/arbitrage.py\<close>

text \<open>
  An \<open>ArbitrageOpportunity\<close> keeps references to the price dictionaries it was built
  from, not copies of them.
\<close>

record opportunity =
  opp_gpu_model :: string
  cheapest :: ref
  most_expensive :: ref
  price_difference :: real
  percentage_savings :: real
  all_providers :: "ref list"

record detector =
  min_price_difference :: real
  min_percentage_savings :: real
  min_providers :: int

text \<open>
  \<open>by_gpu[gpu_model].append(price)\<close> on a \<open>defaultdict(list)\<close>: a key seen for the
  first time is added after the keys already there, a known key keeps its place.
\<close>

fun group_append :: "string \<Rightarrow> ref \<Rightarrow> (string \<times> ref list) list \<Rightarrow> (string \<times> ref list) list" where
  "group_append k v [] = [(k, [v])]"
| "group_append k v ((k', vs) # rest) =
     (if k' = k then (k', vs @ [v]) # rest else (k', vs) # group_append k v rest)"

fun group_by_gpu :: "heap \<Rightarrow> ref list \<Rightarrow> (string \<times> ref list) list \<Rightarrow> (string \<times> ref list) list" where
  "group_by_gpu h [] by_gpu = by_gpu"
| "group_by_gpu h (price # rest) by_gpu =
     (case gpu_model (h price) of
        None \<Rightarrow> group_by_gpu h rest by_gpu
      | Some gm \<Rightarrow>
          if gm \<noteq> [] \<and> normalized (h price) = Some True
          then group_by_gpu h rest (group_append gm price by_gpu)
          else group_by_gpu h rest by_gpu)"

text \<open>The subscript \<open>x['price_per_hour']\<close> raises \<open>KeyError\<close> when the key is missing.\<close>

definition item_price :: "heap \<Rightarrow> ref \<Rightarrow> error + real" where
  "item_price h x =
     (case price_per_hour (h x) of
        None \<Rightarrow> Inl (KeyError ''price_per_hour'')
      | Some p \<Rightarrow> Inr p)"

text \<open>
  \<open>sorted(gpu_prices, key=...)\<close>: the key of every element is computed first, in list
  order, and the elements are then put in ascending key order, elements with equal keys
  staying in their original order.
\<close>

fun price_keys :: "heap \<Rightarrow> ref list \<Rightarrow> error + real list" where
  "price_keys h [] = Inr []"
| "price_keys h (x # xs) =
     (case item_price h x of
        Inl e \<Rightarrow> Inl e
      | Inr p \<Rightarrow> (case price_keys h xs of Inl e \<Rightarrow> Inl e | Inr ks \<Rightarrow> Inr (p # ks)))"

definition sorted_by_price :: "heap \<Rightarrow> ref list \<Rightarrow> error + ref list" where
  "sorted_by_price h xs =
     (case price_keys h xs of
        Inl e \<Rightarrow> Inl e
      | Inr ks \<Rightarrow> Inr (map snd (sort_key fst (zip ks xs))))"

text \<open>
  \<open>list.sort(key=..., reverse=True)\<close>: descending key order, elements with equal keys
  still in their original order (the list is reversed, sorted stably, and reversed again).
\<close>

definition sort_reverse :: "('a \<Rightarrow> real) \<Rightarrow> 'a list \<Rightarrow> 'a list" where
  "sort_reverse key xs = rev (sort_key key (rev xs))"

text \<open>
  The body of the loop over \<open>by_gpu.items()\<close> for one group: \<open>Inr None\<close> when the
  group is passed over, \<open>Inr (Some opp)\<close> when \<open>opp\<close> is appended.
\<close>

definition evaluate_group :: "detector \<Rightarrow> heap \<Rightarrow> string \<Rightarrow> ref list \<Rightarrow> error + opportunity option" where
  "evaluate_group d h gm gpu_prices =
     (if int (length gpu_prices) < min_providers d then Inr None
      else
        (case sorted_by_price h gpu_prices of
           Inl e \<Rightarrow> Inl e
         | Inr sorted_prices \<Rightarrow>
             if sorted_prices = [] then Inl IndexError
             else
               (let cheap = hd sorted_prices; expensive = last sorted_prices
                in case item_price h expensive of
                     Inl e \<Rightarrow> Inl e
                   | Inr hi \<Rightarrow>
                       (case item_price h cheap of
                          Inl e \<Rightarrow> Inl e
                        | Inr lo \<Rightarrow>
                            (let price_diff = hi - lo
                             in case py_div price_diff hi of
                                  Inl e \<Rightarrow> Inl e
                                | Inr ratio \<Rightarrow>
                                    (let pct = ratio * 100
                                     in if min_price_difference d \<le> price_diff \<and>
                                           min_percentage_savings d \<le> pct
                                        then Inr (Some
                                               \<lparr>opp_gpu_model = gm, cheapest = cheap,
                                                most_expensive = expensive,
                                                price_difference = price_diff,
                                                percentage_savings = pct,
                                                all_providers = sorted_prices\<rparr>)
                                        else Inr None))))))"

text \<open>The loop itself, with the list \<open>opportunities\<close> as accumulator.\<close>

fun find_opportunities ::
  "detector \<Rightarrow> heap \<Rightarrow> (string \<times> ref list) list \<Rightarrow> opportunity list \<Rightarrow> error + opportunity list" where
  "find_opportunities d h [] opportunities = Inr opportunities"
| "find_opportunities d h ((gm, gpu_prices) # rest) opportunities =
     (case evaluate_group d h gm gpu_prices of
        Inl e \<Rightarrow> Inl e
      | Inr None \<Rightarrow> find_opportunities d h rest opportunities
      | Inr (Some opp) \<Rightarrow> find_opportunities d h rest (opportunities @ [opp]))"

text \<open>
  \<open>detect_opportunities\<close> up to its last statement: the prices are normalized (always
  with availability weighting, the default), the normalized entries with a model name are
  grouped, and the loop leaves the list \<open>opportunities\<close> in the order of its appends.
\<close>

definition collect_opportunities ::
  "detector \<Rightarrow> heap \<Rightarrow> ref list \<Rightarrow> string \<Rightarrow> heap \<times> (error + opportunity list)" where
  "collect_opportunities d h prices prec =
     (case normalize_prices h prices prec True of
        (h', Inl e) \<Rightarrow> (h', Inl e)
      | (h', Inr normalized_prices) \<Rightarrow>
          (h', find_opportunities d h' (group_by_gpu h' normalized_prices []) []))"

text \<open>The whole function: the collected list, sorted by percentage savings, descending.\<close>

definition detect_opportunities ::
  "detector \<Rightarrow> heap \<Rightarrow> ref list \<Rightarrow> string \<Rightarrow> heap \<times> (error + opportunity list)" where
  "detect_opportunities d h prices prec =
     (case collect_opportunities d h prices prec of
        (h', Inl e) \<Rightarrow> (h', Inl e)
      | (h', Inr opportunities) \<Rightarrow>
          (h', Inr (sort_reverse percentage_savings opportunities)))"

text \<open>The number of different providers among a list of price entries.\<close>

definition distinct_providers :: "heap \<Rightarrow> ref list \<Rightarrow> nat" where
  "distinct_providers h xs = length (remdups (map (\<lambda>x. provider (h x)) xs))"

section \<open>data\_collection/scheduler.py\<close>

text \<open>
  A provider adapter is an object whose \<open>get_prices()\<close> returns a list of price entries
  or raises. Its behaviour during one collection cycle is the outcome of each call in
  turn: \<open>Inr prices\<close>, or \<open>Inl msg\<close> for an exception of class \<open>Exception\<close> whose
  \<open>str\<close> is \<open>msg\<close>. Sleeping and printing are not modelled.
\<close>

type_synonym 'q adapter = "nat \<Rightarrow> string + 'q list"

record 'q fetch_result =
  result_provider :: string
  success :: bool
  prices :: "'q list"
  result_error :: "string option"
  attempts :: int

record 'q scheduler =
  max_retries :: int
  providers :: "(string \<times> 'q adapter) list"

record 'q cycle_result =
  providers_queried :: nat
  providers_successful :: nat
  total_prices :: nat
  results :: "'q fetch_result option list"
  all_prices :: "'q list"

text \<open>
  The body of \<open>for attempt in range(self.max_retries)\<close>. When the range is exhausted
  without a \<open>return\<close> the function ends and its value is \<open>None\<close>.
\<close>

fun retry_loop :: "int \<Rightarrow> string \<Rightarrow> 'q adapter \<Rightarrow> nat list \<Rightarrow> 'q fetch_result option" where
  "retry_loop mr provider_name adapter [] = None"
| "retry_loop mr provider_name adapter (attempt # rest) =
     (case adapter attempt of
        Inr ps \<Rightarrow>
          Some \<lparr>result_provider = provider_name, success = True, prices = ps,
                result_error = None, attempts = int attempt + 1\<rparr>
      | Inl msg \<Rightarrow>
          if int attempt < mr - 1 then retry_loop mr provider_name adapter rest
          else Some \<lparr>result_provider = provider_name, success = False, prices = [],
                     result_error = Some msg, attempts = mr\<rparr>)"

definition fetch_with_retry :: "'q scheduler \<Rightarrow> string \<Rightarrow> 'q adapter \<Rightarrow> 'q fetch_result option" where
  "fetch_with_retry s provider_name adapter =
     retry_loop (max_retries s) provider_name adapter [0..<nat (max_retries s)]"

text \<open>
  The aggregation loop reads \<open>result['success']\<close>; on a result that is \<open>None\<close> the
  subscript raises \<open>TypeError\<close>.
\<close>

fun aggregate :: "'q fetch_result option list \<Rightarrow> 'q list \<Rightarrow> error + 'q list" where
  "aggregate [] acc = Inr acc"
| "aggregate (None # rest) acc = Inl TypeError"
| "aggregate (Some r # rest) acc = aggregate rest (if success r then acc @ prices r else acc)"

fun count_successful :: "'q fetch_result option list \<Rightarrow> error + nat" where
  "count_successful [] = Inr 0"
| "count_successful (None # rest) = Inl TypeError"
| "count_successful (Some r # rest) =
     (case count_successful rest of
        Inl e \<Rightarrow> Inl e
      | Inr n \<Rightarrow> Inr (if success r then n + 1 else n))"

text \<open>
  \<open>fetch_all_prices\<close>. In parallel mode the results arrive in the order in which the
  workers finish: \<open>completion\<close> lists the positions of the adapters in that order, and
  \<open>ThreadPoolExecutor(max_workers=0)\<close> raises \<open>ValueError\<close>. The wall-clock fields
  \<open>timestamp\<close> and \<open>elapsed_seconds\<close> are left out.
\<close>

definition fetch_all_prices :: "'q scheduler \<Rightarrow> bool \<Rightarrow> nat list \<Rightarrow> error + 'q cycle_result" where
  "fetch_all_prices s in_parallel completion =
     (if in_parallel \<and> providers s = [] then Inl ValueError
      else
        (let order = (if in_parallel then map (\<lambda>i. providers s ! i) completion else providers s);
             rs = map (\<lambda>(name, adapter). fetch_with_retry s name adapter) order
         in case aggregate rs [] of
              Inl e \<Rightarrow> Inl e
            | Inr ps \<Rightarrow>
                (case count_successful rs of
                   Inl e \<Rightarrow> Inl e
                 | Inr successful \<Rightarrow>
                     Inr \<lparr>providers_queried = length rs,
                          providers_successful = successful,
                          total_prices = length ps,
                          results = rs,
                          all_prices = ps\<rparr>)))"

text \<open>
  What an adapter does within the retry budget: the first attempt that returns, if there
  is one among the attempts \<open>0, ..., max_retries - 1\<close>.
\<close>

definition first_success :: "int \<Rightarrow> 'q adapter \<Rightarrow> nat option" where
  "first_success mr adapter = find (\<lambda>k. \<not> isl (adapter k)) [0..<nat mr]"

definition quotes_of :: "int \<Rightarrow> 'q adapter \<Rightarrow> 'q list" where
  "quotes_of mr adapter =
     (case first_success mr adapter of
        None \<Rightarrow> []
      | Some k \<Rightarrow> (case adapter k of Inr ps \<Rightarrow> ps | Inl msg \<Rightarrow> []))"

section \<open>storage/cache.py\<close>

text \<open>
  Instants are microseconds since \<open>datetime.min\<close>; \<open>datetime.utcnow()\<close> is a
  parameter of every operation that reads the clock, one reading per call. Adding a
  \<open>timedelta\<close> raises \<open>OverflowError\<close> when the sum leaves the range of \<open>datetime\<close>.
\<close>

definition datetime_max :: int where
  "datetime_max = 315537897599999999"

definition add_seconds :: "int \<Rightarrow> int \<Rightarrow> error + int" where
  "add_seconds now secs =
     (let t = now + secs * 1000000
      in if 0 \<le> t \<and> t \<le> datetime_max then Inr t else Inl OverflowError)"

record 'v cache_entry =
  entry_value :: 'v
  expires_at :: int
  created_at :: int

text \<open>
  A \<open>PriceCache\<close> object: its TTL and its dictionary \<open>_cache\<close>, kept as an association
  list in insertion order. The lock makes every method atomic and is not modelled.
\<close>

record 'v price_cache =
  ttl_seconds :: int
  cache :: "(string \<times> 'v cache_entry) list"

definition PriceCache :: "int \<Rightarrow> 'v price_cache" where
  "PriceCache ttl = \<lparr>ttl_seconds = ttl, cache = []\<rparr>"

definition is_expired :: "int \<Rightarrow> 'v cache_entry \<Rightarrow> bool" where
  "is_expired now entry \<longleftrightarrow> expires_at entry < now"

definition cache_set :: "'v price_cache \<Rightarrow> int \<Rightarrow> string \<Rightarrow> 'v \<Rightarrow> error + 'v price_cache" where
  "cache_set c now key v =
     (case add_seconds now (ttl_seconds c) of
        Inl e \<Rightarrow> Inl e
      | Inr expiry \<Rightarrow>
          Inr (c\<lparr>cache := AList.update key
                 \<lparr>entry_value = v, expires_at = expiry, created_at = now\<rparr> (cache c)\<rparr>))"

definition cache_get :: "'v price_cache \<Rightarrow> int \<Rightarrow> string \<Rightarrow> 'v price_cache \<times> 'v option" where
  "cache_get c now key =
     (case map_of (cache c) key of
        None \<Rightarrow> (c, None)
      | Some entry \<Rightarrow>
          if is_expired now entry then (c\<lparr>cache := AList.delete key (cache c)\<rparr>, None)
          else (c, Some (entry_value entry)))"

definition cache_delete :: "'v price_cache \<Rightarrow> string \<Rightarrow> 'v price_cache \<times> bool" where
  "cache_delete c key =
     (if key \<in> fst ` set (cache c) then (c\<lparr>cache := AList.delete key (cache c)\<rparr>, True)
      else (c, False))"

definition cache_clear :: "'v price_cache \<Rightarrow> 'v price_cache" where
  "cache_clear c = c\<lparr>cache := []\<rparr>"

definition cleanup_expired :: "'v price_cache \<Rightarrow> int \<Rightarrow> 'v price_cache \<times> nat" where
  "cleanup_expired c now =
     (let expired_keys = map fst (filter (\<lambda>(key, entry). is_expired now entry) (cache c))
      in (c\<lparr>cache := filter (\<lambda>(key, entry). key \<notin> set expired_keys) (cache c)\<rparr>,
          length expired_keys))"

record cache_stats =
  total_entries :: nat
  active_entries :: nat
  expired_entries :: nat
  stats_ttl_seconds :: int

definition stats :: "'v price_cache \<Rightarrow> int \<Rightarrow> cache_stats" where
  "stats c now =
     (let total = length (cache c);
          expired = length (filter (is_expired now) (map snd (cache c)))
      in \<lparr>total_entries = total, active_entries = total - expired,
          expired_entries = expired, stats_ttl_seconds = ttl_seconds c\<rparr>)"

text \<open>
  The module state: the \<open>PriceCache\<close> objects created so far and the module variable
  \<open>_global_cache\<close>, which is \<open>None\<close> or a reference to one of them.
\<close>

record 'v cache_module =
  global_cache :: "ref option"
  objects :: "'v price_cache list"

definition get_cache :: "int \<Rightarrow> 'v cache_module \<Rightarrow> 'v cache_module \<times> ref" where
  "get_cache ttl m =
     (case global_cache m of
        None \<Rightarrow>
          (m\<lparr>global_cache := Some (length (objects m)),
             objects := objects m @ [PriceCache ttl]\<rparr>, length (objects m))
      | Some r \<Rightarrow> (m, r))"

text \<open>
  Everything the rest of the program does with the module: call \<open>get_cache\<close>,
  construct a cache of its own, or call a method of a cache object it holds. A method
  that raises leaves the object as it was.
\<close>

datatype 'v call =
    GetCache int
  | NewCache int
  | CallSet ref int string 'v
  | CallGet ref int string
  | CallDelete ref string
  | CallClear ref
  | CallCleanup ref int

definition on_object :: "ref \<Rightarrow> ('v price_cache \<Rightarrow> 'v price_cache) \<Rightarrow> 'v cache_module \<Rightarrow> 'v cache_module" where
  "on_object r f m =
     (if r < length (objects m) then m\<lparr>objects := (objects m)[r := f (objects m ! r)]\<rparr> else m)"

fun step :: "'v call \<Rightarrow> 'v cache_module \<Rightarrow> 'v cache_module" where
  "step (GetCache ttl) m = fst (get_cache ttl m)"
| "step (NewCache ttl) m = m\<lparr>objects := objects m @ [PriceCache ttl]\<rparr>"
| "step (CallSet r now key v) m =
     on_object r (\<lambda>c. case cache_set c now key v of Inl e \<Rightarrow> c | Inr c' \<Rightarrow> c') m"
| "step (CallGet r now key) m = on_object r (\<lambda>c. fst (cache_get c now key)) m"
| "step (CallDelete r key) m = on_object r (\<lambda>c. fst (cache_delete c key)) m"
| "step (CallClear r) m = on_object r cache_clear m"
| "step (CallCleanup r now) m = on_object r (\<lambda>c. fst (cleanup_expired c now)) m"

fun run :: "'v call list \<Rightarrow> 'v cache_module \<Rightarrow> 'v cache_module" where
  "run [] m = m"
| "run (c # cs) m = run cs (step c m)"

section \<open>Notions used in the statements\<close>

text \<open>A quote has a resource identifier when the key is present and not the empty string.\<close>

definition has_model :: "quote \<Rightarrow> bool" where
  "has_model q = (case gpu_model q of None \<Rightarrow> False | Some gm \<Rightarrow> gm \<noteq> [])"

text \<open>The contents of a dictionary after \<open>normalize_price\<close> has run on it.\<close>

definition contents_after :: "quote \<Rightarrow> string \<Rightarrow> bool \<Rightarrow> quote" where
  "contents_after q prec ia =
     (case normalize_price_fields q prec ia of
        Inr (Some q') \<Rightarrow> q'
      | Inr None \<Rightarrow> q
      | Inl e \<Rightarrow> q)"

text \<open>A quote with the five keys written by normalization blanked out.\<close>

definition raw_fields :: "quote \<Rightarrow> quote" where
  "raw_fields q =
     q\<lparr>normalized := None, tflops := None, cost_per_tflop := None,
       cost_performance_score := None, precision := None\<rparr>"

text \<open>
  The model names of the entries that take part in grouping, and the order in which a
  list first shows each of its elements.
\<close>

definition model_name :: "quote \<Rightarrow> string" where
  "model_name q = (case gpu_model q of None \<Rightarrow> [] | Some gm \<Rightarrow> gm)"

definition grouped :: "quote \<Rightarrow> bool" where
  "grouped q \<longleftrightarrow> has_model q \<and> normalized q = Some True"

definition first_seen :: "'a list \<Rightarrow> 'a list" where
  "first_seen xs = rev (remdups (rev xs))"

definition scores_unset :: "quote \<Rightarrow> bool" where
  "scores_unset q \<longleftrightarrow>
     tflops q = None \<and> cost_per_tflop q = None \<and> cost_performance_score q = None"

section \<open>Example data\<close>

text \<open>A price entry as an adapter delivers it: the standard keys, no normalization keys.\<close>

definition fresh_quote :: "string \<Rightarrow> string \<Rightarrow> string \<Rightarrow> real \<Rightarrow> real \<Rightarrow> quote" where
  "fresh_quote prov reg gm p av =
     \<lparr>provider = prov, region = reg, gpu_model = Some gm, price_per_hour = Some p,
      availability = Some av, timestamp = ''2024-01-01T00:00:00Z'', normalized = None,
      tflops = None, cost_per_tflop = None, cost_performance_score = None,
      precision = None\<rparr>"

text \<open>
  A store with an A100 at 1.00 per hour (reference 0), a model without a profile
  (reference 1), an entry with an empty model name (reference 2) and an A100 at price 0
  (reference 3).
\<close>

definition example_heap :: heap where
  "example_heap =
     (\<lambda>r. fresh_quote ''AWS'' ''us-east-1'' ''A100'' 1 0.9)
       (1 := fresh_quote ''GCP'' ''us-central1'' ''FooBar9000'' 2 0.8,
        2 := fresh_quote ''Azure'' ''eastus'' [] 3 0.7,
        3 := fresh_quote ''RunPod'' ''eu-west'' ''A100'' 0 0.5)"

definition default_detector :: detector where
  "default_detector =
     \<lparr>min_price_difference = 0.5, min_percentage_savings = 10, min_providers = 2\<rparr>"

text \<open>One provider offering the A100 in two regions, at 30 and at 20 per hour.\<close>

definition one_provider_heap :: heap where
  "one_provider_heap =
     (\<lambda>r. fresh_quote ''AWS'' ''us-east-1'' ''A100'' 30 0.9)
       (1 := fresh_quote ''AWS'' ''eu-west-1'' ''A100'' 20 0.95)"

text \<open>Two providers giving the A100 away at price 0.\<close>

definition free_heap :: heap where
  "free_heap =
     (\<lambda>r. fresh_quote ''AWS'' ''us-east-1'' ''A100'' 0 0.9)
       (1 := fresh_quote ''GCP'' ''us-central1'' ''A100'' 0 0.95)"

text \<open>
  Three models, each offered by two providers: A100 at 30 and 20, H100 at 60 and 40, T4 at
  1 and 0.5; the A100 and the H100 both save a third.
\<close>

definition market_heap :: heap where
  "market_heap =
     (\<lambda>r. fresh_quote ''AWS'' ''us-east-1'' ''A100'' 30 0.9)
       (1 := fresh_quote ''AWS'' ''us-east-1'' ''H100'' 60 0.9,
        2 := fresh_quote ''AWS'' ''us-east-1'' ''T4'' 1 0.9,
        3 := fresh_quote ''GCP'' ''us-central1'' ''A100'' 20 0.95,
        4 := fresh_quote ''GCP'' ''us-central1'' ''H100'' 40 0.95,
        5 := fresh_quote ''GCP'' ''us-central1'' ''T4'' 0.5 0.95)"

text \<open>
  Three adapters: one that always delivers two entries, one that always raises, and one
  that raises twice before it delivers one entry.
\<close>

definition steady_adapter :: "nat adapter" where
  "steady_adapter = (\<lambda>attempt. Inr [0, 1])"

definition broken_adapter :: "nat adapter" where
  "broken_adapter = (\<lambda>attempt. Inl ''connection refused'')"

definition flaky_adapter :: "nat adapter" where
  "flaky_adapter = (\<lambda>attempt. if attempt < 2 then Inl ''timeout'' else Inr [2])"

definition example_scheduler :: "nat scheduler" where
  "example_scheduler =
     \<lparr>max_retries = 3,
      providers = [(''AWS'', steady_adapter), (''GCP'', broken_adapter),
                   (''Azure'', flaky_adapter)]\<rparr>"

definition failing_scheduler :: "nat scheduler" where
  "failing_scheduler =
     \<lparr>max_retries = 3, providers = [(''AWS'', broken_adapter), (''GCP'', broken_adapter)]\<rparr>"

text \<open>The scheduler \<open>PricingScheduler(max_retries=0)\<close> with one working adapter.\<close>

definition no_retry_scheduler :: "nat scheduler" where
  "no_retry_scheduler = \<lparr>max_retries = 0, providers = [(''AWS'', steady_adapter)]\<rparr>"

text \<open>
  A cache with a TTL of five seconds after \<open>set('latest_prices', 42)\<close> at the instant
  1000000.
\<close>

definition example_cache :: "nat price_cache" where
  "example_cache =
     \<lparr>ttl_seconds = 5,
      cache = [(''latest_prices'',
                \<lparr>entry_value = 42, expires_at = 6000000, created_at = 1000000\<rparr>)]\<rparr>"

text \<open>A module in which no cache has been created yet.\<close>

definition fresh_module :: "nat cache_module" where
  "fresh_module = \<lparr>global_cache = None, objects = []\<rparr>"

section \<open>Properties of normalization\<close>

subsection \<open>Rounding\<close>

lemma round_half_even_zero [simp]: "round_half_even 0 = 0"
  by (simp add: round_half_even_def)

lemma py_round_zero [simp]: "py_round 0 n = 0"
  by (simp add: py_round_def)

lemma round_half_even_close: "\<bar>of_int (round_half_even x) - x\<bar> \<le> 1 / 2"
  unfolding round_half_even_def Let_def
  by (auto split: if_splits)

lemma py_round_close: "\<bar>py_round x n - x\<bar> \<le> 1 / (2 * 10 ^ n)"
proof -
  have pos: "(0::real) < 10 ^ n" by simp
  have "py_round x n - x = (of_int (round_half_even (x * 10 ^ n)) - x * 10 ^ n) / 10 ^ n"
    by (simp add: py_round_def diff_divide_distrib)
  then have "\<bar>py_round x n - x\<bar> = \<bar>of_int (round_half_even (x * 10 ^ n)) - x * 10 ^ n\<bar> / 10 ^ n"
    by (simp add: abs_divide)
  also have "\<dots> \<le> (1 / 2) / 10 ^ n"
    by (rule divide_right_mono[OF round_half_even_close]) simp
  finally show ?thesis by simp
qed

subsection \<open>What one call writes\<close>

text \<open>
  Normalization has no failing path: both divisions are guarded. A call returns
  \<open>None\<close> exactly for an entry without a model name; otherwise it returns the entry it
  was given, with the contents described by \<open>contents_after\<close>.
\<close>

lemma normalize_price_fields_no_error: "normalize_price_fields q prec ia \<noteq> Inl e"
  by (auto simp: normalize_price_fields_def py_div_def Let_def split: option.splits if_splits sum.splits)

lemma normalize_price_fields_None:
  "normalize_price_fields q prec ia = Inr None \<longleftrightarrow> \<not> has_model q"
  by (auto simp: normalize_price_fields_def has_model_def py_div_def Let_def split: option.splits if_splits sum.splits)

lemma has_model_contents_after [simp]: "has_model (contents_after q prec ia) = has_model q"
  by (auto simp: contents_after_def normalize_price_fields_def has_model_def py_div_def Let_def split: option.splits if_splits sum.splits)

lemma gpu_model_contents_after [simp]: "gpu_model (contents_after q prec ia) = gpu_model q"
  by (auto simp: contents_after_def normalize_price_fields_def py_div_def Let_def split: option.splits if_splits sum.splits)

lemma raw_fields_contents_after [simp]: "raw_fields (contents_after q prec ia) = raw_fields q"
  by (auto simp: contents_after_def normalize_price_fields_def raw_fields_def py_div_def Let_def split: option.splits if_splits sum.splits)

lemma contents_after_idem [simp]:
  "contents_after (contents_after q prec ia) prec ia = contents_after q prec ia"
  by (auto simp: contents_after_def normalize_price_fields_def py_div_def Let_def split: option.splits if_splits sum.splits)

lemma normalize_price_eq:
  "normalize_price h a prec ia =
     (h(a := contents_after (h a) prec ia), Inr (if has_model (h a) then Some a else None))"
  using normalize_price_fields_no_error[of "h a" prec ia] normalize_price_fields_None[of "h a" prec ia]
  by (auto simp: normalize_price_def contents_after_def split: sum.splits option.splits)

lemma normalize_loop_eq:
  "normalize_loop h ps prec ia acc =
     ((\<lambda>a. if a \<in> set ps then contents_after (h a) prec ia else h a),
      Inr (acc @ filter (\<lambda>a. has_model (h a)) ps))"
proof (induction ps arbitrary: h acc)
  case Nil
  then show ?case by simp
next
  case (Cons p ps)
  show ?case
    by (simp add: normalize_price_eq Cons.IH) (auto simp: fun_eq_iff intro!: filter_cong)
qed

lemma normalize_prices_eq:
  "normalize_prices h ps prec ia =
     ((\<lambda>a. if a \<in> set ps then contents_after (h a) prec ia else h a),
      Inr (filter (\<lambda>a. has_model (h a)) ps))"
  by (simp add: normalize_prices_def normalize_loop_eq)

lemma get_tflops_Some_specs: "get_tflops gm prec = Some tf \<Longrightarrow> get_gpu_specs gm \<noteq> None"
  by (auto simp: get_tflops_def split: option.splits)

lemma contents_after_scored:
  assumes "gpu_model q = Some gm" "gm \<noteq> []" "get_tflops gm prec = Some tf" "tf \<noteq> 0"
  shows "contents_after q prec ia =
     (let pph = (case price_per_hour q of None \<Rightarrow> 0 | Some p \<Rightarrow> p);
          avail = (case availability q of None \<Rightarrow> 1 | Some a \<Rightarrow> a);
          score = (if 0 < pph then (if ia then tf / pph * avail else tf / pph) else 0)
      in q\<lparr>normalized := Some True, tflops := Some (py_round tf 2),
            cost_per_tflop := Some (py_round (pph / tf) 4),
            cost_performance_score := Some (py_round score 4),
            precision := Some prec\<rparr>)"
  using assms get_tflops_Some_specs[OF assms(3)]
  by (auto simp: contents_after_def normalize_price_fields_def py_div_def Let_def split: option.splits)

lemma contents_after_unknown:
  assumes "gpu_model q = Some gm" "gm \<noteq> []" "get_gpu_specs gm = None"
  shows "contents_after q prec ia =
     q\<lparr>normalized := Some False, tflops := None, cost_per_tflop := None,
       cost_performance_score := None\<rparr>"
  using assms by (simp add: contents_after_def normalize_price_fields_def)

lemma contents_after_no_figure:
  assumes "gpu_model q = Some gm" "gm \<noteq> []" "get_gpu_specs gm \<noteq> None"
    "get_tflops gm prec = None \<or> get_tflops gm prec = Some 0"
  shows "contents_after q prec ia = q\<lparr>normalized := Some False\<rparr>"
  using assms by (auto simp: contents_after_def normalize_price_fields_def split: option.splits)

subsection \<open>Table lookups used in the examples\<close>

lemma get_tflops_A100_fp32: "get_tflops ''A100'' ''fp32'' = Some 19.5"
  by code_simp

lemma get_tflops_A100_int8: "get_tflops ''A100'' ''int8'' = None"
  by code_simp

lemma get_gpu_specs_A100: "get_gpu_specs ''A100'' \<noteq> None"
  by code_simp

lemma get_gpu_specs_FooBar: "get_gpu_specs ''FooBar9000'' = None"
  by code_simp

subsection \<open>Claims about normalization\<close>

text \<open>
  C3, as the code has it by design: \<open>normalize_prices\<close> returns, in input order,
  exactly the entries whose model name is present and not empty; when every entry has one,
  that is one record per input quote. An entry whose model has no profile comes back with
  \<open>normalized\<close> false and \<open>tflops\<close>, \<open>cost_per_tflop\<close> and
  \<open>cost_performance_score\<close> unset. An entry whose profile has no non-zero figure for
  the precision comes back with \<open>normalized\<close> false. Neither kind is removed from the
  batch.
\<close>

theorem C3_identified_quotes_kept:
  "snd (normalize_prices h ps prec ia) = Inr (filter (\<lambda>a. has_model (h a)) ps) \<and>
   ((\<forall>a\<in>set ps. has_model (h a)) \<longrightarrow> snd (normalize_prices h ps prec ia) = Inr ps) \<and>
   (\<forall>a\<in>set ps. \<forall>gm. gpu_model (h a) = Some gm \<and> gm \<noteq> [] \<longrightarrow>
      (get_gpu_specs gm = None \<longrightarrow>
         normalized (fst (normalize_prices h ps prec ia) a) = Some False \<and>
         scores_unset (fst (normalize_prices h ps prec ia) a)) \<and>
      (get_gpu_specs gm \<noteq> None \<and> (get_tflops gm prec = None \<or> get_tflops gm prec = Some 0) \<longrightarrow>
         normalized (fst (normalize_prices h ps prec ia) a) = Some False))"
proof (intro conjI ballI allI impI)
  show "snd (normalize_prices h ps prec ia) = Inr (filter (\<lambda>a. has_model (h a)) ps)"
    by (simp add: normalize_prices_eq)
next
  assume "\<forall>a\<in>set ps. has_model (h a)"
  then have "filter (\<lambda>a. has_model (h a)) ps = ps" by (simp add: filter_id_conv)
  then show "snd (normalize_prices h ps prec ia) = Inr ps"
    by (simp add: normalize_prices_eq)
next
  fix a gm
  assume a: "a \<in> set ps" and gm: "gpu_model (h a) = Some gm \<and> gm \<noteq> []"
    and unknown: "get_gpu_specs gm = None"
  have eq: "fst (normalize_prices h ps prec ia) a = contents_after (h a) prec ia"
    using a by (simp add: normalize_prices_eq)
  show "normalized (fst (normalize_prices h ps prec ia) a) = Some False"
    using gm unknown by (simp add: eq contents_after_unknown[of _ gm])
  show "scores_unset (fst (normalize_prices h ps prec ia) a)"
    using gm unknown by (simp add: eq contents_after_unknown[of _ gm] scores_unset_def)
next
  fix a gm
  assume a: "a \<in> set ps" and gm: "gpu_model (h a) = Some gm \<and> gm \<noteq> []"
    and nofig: "get_gpu_specs gm \<noteq> None \<and> (get_tflops gm prec = None \<or> get_tflops gm prec = Some 0)"
  have eq: "fst (normalize_prices h ps prec ia) a = (h a)\<lparr>normalized := Some False\<rparr>"
    using a gm nofig by (simp add: normalize_prices_eq contents_after_no_figure[of _ gm])
  show "normalized (fst (normalize_prices h ps prec ia) a) = Some False"
    by (simp add: eq)
qed

text \<open>
  An instance: a batch of three entries with model names, one without a profile, at a
  precision the A100 profile does not list.
\<close>

theorem C3_identified_quotes_kept_witness:
  "has_model (example_heap 0) \<and> has_model (example_heap 1) \<and> has_model (example_heap 3) \<and>
   get_gpu_specs ''FooBar9000'' = None \<and>
   get_gpu_specs ''A100'' \<noteq> None \<and> get_tflops ''A100'' ''int8'' = None \<and>
   snd (normalize_prices example_heap [0, 1, 3] ''int8'' True) = Inr [0, 1, 3] \<and>
   normalized (fst (normalize_prices example_heap [0, 1, 3] ''int8'' True) 1) = Some False \<and>
   scores_unset (fst (normalize_prices example_heap [0, 1, 3] ''int8'' True) 1) \<and>
   normalized (fst (normalize_prices example_heap [0, 1, 3] ''int8'' True) 0) = Some False \<and>
   normalized (fst (normalize_prices example_heap [0, 1, 3] ''int8'' True) 3) = Some False"
proof -
  note specs = get_gpu_specs_FooBar get_gpu_specs_A100 get_tflops_A100_int8
  have hm: "\<forall>a\<in>set [0, 1, 3]. has_model (example_heap a)"
    by (simp add: has_model_def example_heap_def fresh_quote_def)
  from C3_identified_quotes_kept[of example_heap "[0, 1, 3]" "''int8''" True] hm specs
  show ?thesis
    by (simp add: example_heap_def fresh_quote_def scores_unset_def)
qed

text \<open>
  The claim as written fails in two places. An entry whose model name is the empty string
  is dropped: a batch of three entries gives two records. And an entry whose profile lacks
  the figure keeps the numeric fields it already carries: the A100 entry, normalized in
  single precision and then again at a precision its profile does not list, comes back
  with \<open>normalized\<close> false and \<open>tflops\<close> and \<open>cost_per_tflop\<close> still set. The
  branch for a model without a profile clears these fields; this branch does not.
\<close>

theorem C3_counterexample:
  "snd (normalize_prices example_heap [0, 2, 1] ''fp32'' True) = Inr [0, 1] \<and>
   get_gpu_specs ''A100'' \<noteq> None \<and> get_tflops ''A100'' ''int8'' = None \<and>
   snd (normalize_prices (fst (normalize_prices example_heap [0] ''fp32'' True)) [0] ''int8'' True)
     = Inr [0] \<and>
   normalized
     (fst (normalize_prices (fst (normalize_prices example_heap [0] ''fp32'' True)) [0] ''int8'' True) 0)
     = Some False \<and>
   tflops
     (fst (normalize_prices (fst (normalize_prices example_heap [0] ''fp32'' True)) [0] ''int8'' True) 0)
     = Some 19.5 \<and>
   cost_per_tflop
     (fst (normalize_prices (fst (normalize_prices example_heap [0] ''fp32'' True)) [0] ''int8'' True) 0)
     = Some (513 / 10000)"
  by code_simp

text \<open>
  C6, as the code has it: normalization writes into the entries it is given and returns
  those same entries. Only the keys \<open>normalized\<close>, \<open>tflops\<close>, \<open>cost_per_tflop\<close>,
  \<open>cost_performance_score\<close> and \<open>precision\<close> are written; every other field of
  every entry keeps its value, and entries outside the batch are not touched.
\<close>

theorem C6_writes_in_place:
  "(\<forall>b. raw_fields (fst (normalize_price h a prec ia) b) = raw_fields (h b)) \<and>
   (\<forall>b. b \<noteq> a \<longrightarrow> fst (normalize_price h a prec ia) b = h b) \<and>
   snd (normalize_price h a prec ia) = Inr (if has_model (h a) then Some a else None) \<and>
   (\<forall>b. raw_fields (fst (normalize_prices h ps prec ia) b) = raw_fields (h b)) \<and>
   (\<forall>b. b \<notin> set ps \<longrightarrow> fst (normalize_prices h ps prec ia) b = h b) \<and>
   (\<forall>b\<in>set ps. fst (normalize_prices h ps prec ia) b = contents_after (h b) prec ia) \<and>
   snd (normalize_prices h ps prec ia) = Inr (filter (\<lambda>b. has_model (h b)) ps)"
  by (simp add: normalize_price_eq normalize_prices_eq)

text \<open>An instance on the example store.\<close>

theorem C6_writes_in_place_witness:
  "raw_fields (fst (normalize_price example_heap 0 ''fp32'' True) 0) = raw_fields (example_heap 0) \<and>
   fst (normalize_price example_heap 0 ''fp32'' True) 1 = example_heap 1 \<and>
   snd (normalize_price example_heap 0 ''fp32'' True) = Inr (Some 0) \<and>
   fst (normalize_prices example_heap [0, 1] ''fp32'' True) 3 = example_heap 3 \<and>
   snd (normalize_prices example_heap [0, 1] ''fp32'' True) = Inr [0, 1]"
  using C6_writes_in_place[of example_heap 0 "''fp32''" True "[0, 1]"]
  by (simp add: has_model_def example_heap_def fresh_quote_def)

text \<open>
  The claim as written fails: after the call the entry passed in holds the key
  \<open>normalized\<close>, which it did not hold before, and the value returned is the reference
  that was passed in.
\<close>

theorem C6_counterexample:
  "normalized (example_heap 0) = None \<and>
   normalized (fst (normalize_price example_heap 0 ''fp32'' True) 0) = Some True \<and>
   fst (normalize_price example_heap 0 ''fp32'' True) 0 \<noteq> example_heap 0 \<and>
   snd (normalize_price example_heap 0 ''fp32'' True) = Inr (Some 0)"
proof -
  have n0: "normalized (example_heap 0) = None"
    by (simp add: example_heap_def fresh_quote_def)
  have n1: "normalized (fst (normalize_price example_heap 0 ''fp32'' True) 0) = Some True"
    by (simp add: normalize_price_eq example_heap_def fresh_quote_def get_tflops_A100_fp32
      contents_after_scored[of _ "''A100''" "''fp32''" "19.5"])
  have "snd (normalize_price example_heap 0 ''fp32'' True) = Inr (Some 0)"
    by (simp add: normalize_price_eq has_model_def example_heap_def fresh_quote_def)
  with n0 n1 show ?thesis by auto
qed

text \<open>
  C7, as the code has it: for a quote with a price above 0 and a known non-zero performance
  figure, \<open>cost_per_tflop\<close> is the quotient of price and figure rounded to four decimal
  places, so it lies within 0.00005 of the quotient.
\<close>

theorem C7_cost_per_tflop_rounded:
  assumes "gpu_model (h a) = Some gm" and "gm \<noteq> []"
    and "get_tflops gm prec = Some tf" and "tf \<noteq> 0"
    and "price_per_hour (h a) = Some p" and "0 < p"
  shows "cost_per_tflop (fst (normalize_price h a prec ia) a) = Some (py_round (p / tf) 4) \<and>
         \<bar>py_round (p / tf) 4 - p / tf\<bar> \<le> 1 / 20000"
  using assms py_round_close[of "p / tf" 4]
  by (simp add: normalize_price_eq contents_after_scored[OF assms(1-4)])

text \<open>An instance: the A100 at 1.00 per hour, in single precision.\<close>

theorem C7_cost_per_tflop_rounded_witness:
  "price_per_hour (example_heap 0) = Some 1 \<and> (0::real) < 1 \<and>
   get_tflops ''A100'' ''fp32'' = Some 19.5 \<and>
   cost_per_tflop (fst (normalize_price example_heap 0 ''fp32'' True) 0) = Some (py_round (1 / 19.5) 4) \<and>
   \<bar>py_round (1 / 19.5) 4 - 1 / 19.5\<bar> \<le> 1 / 20000"
  using C7_cost_per_tflop_rounded[of example_heap 0 "''A100''" "''fp32''" "19.5" 1 True]
  by (simp add: example_heap_def fresh_quote_def get_tflops_A100_fp32)

text \<open>
  The claim as written fails: for the A100 at 1.00 per hour the stored figure is 0.0513,
  more than 0.00001 away from the quotient 1 / 19.5.
\<close>

theorem C7_counterexample:
  "price_per_hour (example_heap 0) = Some 1 \<and>
   get_tflops ''A100'' ''fp32'' = Some 19.5 \<and>
   cost_per_tflop (fst (normalize_price example_heap 0 ''fp32'' True) 0) = Some (513 / 10000) \<and>
   1 / 100000 < \<bar>513 / 10000 - 1 / (19.5::real)\<bar>"
  by (simp add: normalize_price_eq example_heap_def fresh_quote_def get_tflops_A100_fp32
      contents_after_scored[of _ "''A100''" "''fp32''" "19.5"] py_round_def round_half_even_def)

text \<open>
  C9: for a quote with a known non-zero performance figure and price 0, normalization
  returns the entry, marked as normalized, with cost-performance score 0, whether or not
  availability is weighted in; no exception is raised.
\<close>

theorem C9_zero_price_guarded:
  assumes "gpu_model (h a) = Some gm" and "gm \<noteq> []"
    and "get_tflops gm prec = Some tf" and "tf \<noteq> 0"
    and "price_per_hour (h a) = Some 0"
  shows "snd (normalize_price h a prec ia) = Inr (Some a) \<and>
         normalized (fst (normalize_price h a prec ia) a) = Some True \<and>
         cost_performance_score (fst (normalize_price h a prec ia) a) = Some 0"
  using assms
  by (simp add: normalize_price_eq has_model_def contents_after_scored[OF assms(1-4)])

text \<open>An instance: the A100 offered at price 0, with and without availability weighting.\<close>

theorem C9_zero_price_guarded_witness:
  "price_per_hour (example_heap 3) = Some 0 \<and>
   get_tflops ''A100'' ''fp32'' = Some 19.5 \<and>
   snd (normalize_price example_heap 3 ''fp32'' True) = Inr (Some 3) \<and>
   cost_performance_score (fst (normalize_price example_heap 3 ''fp32'' True) 3) = Some 0 \<and>
   snd (normalize_price example_heap 3 ''fp32'' False) = Inr (Some 3) \<and>
   cost_performance_score (fst (normalize_price example_heap 3 ''fp32'' False) 3) = Some 0"
  using C9_zero_price_guarded[of example_heap 3 "''A100''" "''fp32''" "19.5" True]
    C9_zero_price_guarded[of example_heap 3 "''A100''" "''fp32''" "19.5" False]
  by (simp add: example_heap_def fresh_quote_def get_tflops_A100_fp32)

section \<open>Properties of the profile lookup\<close>

text \<open>
  The lookup compares the upper-cased name with the keys as they are written in the table.
  Lower-case and padded spellings of an upper-case key are found, and a longer name falls
  back to the first key it contains.
\<close>

lemma get_gpu_specs_examples:
  "get_gpu_specs ''a100'' = map_of GPU_SPECS ''A100''"
  "get_gpu_specs '' rtx 4090 '' = map_of GPU_SPECS ''RTX 4090''"
  "get_gpu_specs ''A100-40GB PCIe'' = map_of GPU_SPECS ''A100''"
  by code_simp+

text \<open>
  The key \<open>RTX 6000 Ada\<close> holds lower-case letters, which an upper-cased name never
  does: no name at all resolves to that profile.
\<close>

lemma upper_char_not_lower_d: "upper_char c \<noteq> CHR ''d''"
  by (simp add: upper_char_def)

lemma set_strip: "set (strip s) \<subseteq> set s"
proof -
  have drop: "set (dropWhile P xs) \<subseteq> set xs" for P and xs :: string
    using set_dropWhileD by fastforce
  have "set (strip s) = set (dropWhile is_space (rev (dropWhile is_space s)))"
    by (simp add: strip_def)
  also have "\<dots> \<subseteq> set (rev (dropWhile is_space s))" by (rule drop)
  also have "\<dots> \<subseteq> set s" using drop[of is_space s] by simp
  finally show ?thesis .
qed

lemma str_in_set: "str_in a b \<Longrightarrow> set a \<subseteq> set b"
proof (induction b)
  case Nil
  then show ?case by simp
next
  case (Cons c cs)
  from Cons.prems have "prefix a (c # cs) \<or> str_in a cs" by simp
  then show ?case
  proof
    assume "prefix a (c # cs)"
    then show ?thesis by (rule set_mono_prefix)
  next
    assume "str_in a cs"
    then have "set a \<subseteq> set cs" by (rule Cons.IH)
    then show ?thesis by auto
  qed
qed

lemma lower_d_not_in_normalized: "CHR ''d'' \<notin> set (strip (upper s))"
proof
  assume "CHR ''d'' \<in> set (strip (upper s))"
  then have "CHR ''d'' \<in> set (upper s)" using set_strip by blast
  then show False using upper_char_not_lower_d by (fastforce simp: upper_def)
qed

lemma rtx_6000_ada_unreachable:
  "get_gpu_specs ident \<noteq> map_of GPU_SPECS ''RTX 6000 Ada''"
proof
  assume eq: "get_gpu_specs ident = map_of GPU_SPECS ''RTX 6000 Ada''"
  let ?n = "strip (upper ident)"
  have key: "\<And>name specs. (name, specs) \<in> set GPU_SPECS \<Longrightarrow> Some specs = map_of GPU_SPECS ''RTX 6000 Ada'' \<Longrightarrow> name = ''RTX 6000 Ada''"
    by (auto simp: GPU_SPECS_def)
  show False
  proof (cases "map_of GPU_SPECS ?n")
    case (Some specs)
    then have "(?n, specs) \<in> set GPU_SPECS" by (rule map_of_SomeD)
    moreover have "Some specs = map_of GPU_SPECS ''RTX 6000 Ada''"
      using eq Some by (simp add: get_gpu_specs_def)
    ultimately have "?n = ''RTX 6000 Ada''" by (rule key)
    then have "CHR ''d'' \<in> set ?n" by simp
    then show False using lower_d_not_in_normalized by blast
  next
    case None
    show False
    proof (cases "find (\<lambda>(spec_name, specs). str_in spec_name ?n) GPU_SPECS")
      case None': None
      with None eq show False by (simp add: get_gpu_specs_def GPU_SPECS_def)
    next
      case (Some p)
      obtain name specs where p: "p = (name, specs)" by (cases p)
      from Some p have mem: "(name, specs) \<in> set GPU_SPECS" and sub: "str_in name ?n"
        by (auto simp: find_Some_iff in_set_conv_nth)
      have "Some specs = map_of GPU_SPECS ''RTX 6000 Ada''"
        using eq None Some p by (simp add: get_gpu_specs_def)
      with mem have "name = ''RTX 6000 Ada''" by (rule key)
      with sub have "CHR ''d'' \<in> set ?n" using str_in_set by fastforce
      then show False using lower_d_not_in_normalized by blast
    qed
  qed
qed

text \<open>
  C4: the lookup is meant to find the profile whose key equals the name up to letter case.
  The code does not do so for the key \<open>RTX 6000 Ada\<close>: the table lists it, and neither
  the key itself nor its lower-case spelling is found.
\<close>

theorem C4_mixed_case_key_not_found:
  "''RTX 6000 Ada'' \<in> set get_all_gpu_models \<and>
   map_of GPU_SPECS ''RTX 6000 Ada'' \<noteq> None \<and>
   get_gpu_specs ''RTX 6000 Ada'' = None \<and>
   get_gpu_specs ''rtx 6000 ada'' = None"
  by code_simp

section \<open>Properties of opportunity detection\<close>

text \<open>
  A second normalization of the same batch changes nothing, so detection leaves the store
  in a state on which it repeats itself. The final sort is stable, and the groups are
  visited in the order in which their model names first occur.
\<close>

lemma normalize_prices_idem:
  "normalize_prices (fst (normalize_prices h ps prec ia)) ps prec ia = normalize_prices h ps prec ia"
  by (auto simp: normalize_prices_eq fun_eq_iff intro!: filter_cong)

lemma collect_opportunities_idem:
  "collect_opportunities d (fst (collect_opportunities d h ps prec)) ps prec =
     collect_opportunities d h ps prec"
proof -
  obtain h1 r where n: "normalize_prices h ps prec True = (h1, r)" by (cases "normalize_prices h ps prec True")
  then have h1: "fst (normalize_prices h ps prec True) = h1" by simp
  have "normalize_prices h1 ps prec True = (h1, r)"
    using normalize_prices_idem[of h ps prec True] n by simp
  then show ?thesis
    using n by (cases r) (simp_all add: collect_opportunities_def)
qed

lemma detect_opportunities_idem:
  "detect_opportunities d (fst (detect_opportunities d h ps prec)) ps prec =
     detect_opportunities d h ps prec"
proof -
  have "fst (detect_opportunities d h ps prec) = fst (collect_opportunities d h ps prec)"
    by (simp add: detect_opportunities_def split: prod.splits sum.splits)
  then show ?thesis
    by (simp add: detect_opportunities_def collect_opportunities_idem)
qed

lemma sort_reverse_sorted: "sorted_wrt (\<lambda>x y. key y \<le> key x) (sort_reverse key xs)"
proof -
  have "sorted (map key (sort_key key (rev xs)))" by simp
  then have "sorted_wrt (\<lambda>x y. key x \<le> key y) (sort_key key (rev xs))"
    by (simp add: sorted_wrt_map)
  then show ?thesis
    by (simp add: sort_reverse_def sorted_wrt_rev)
qed

lemma sort_reverse_stable:
  "filter (\<lambda>x. key x = k) (sort_reverse key xs) = filter (\<lambda>x. key x = k) xs"
proof -
  have "filter (\<lambda>x. key x = k) (sort_reverse key xs) =
        rev (filter (\<lambda>x. key x = k) (sort_key key (rev xs)))"
    by (simp add: sort_reverse_def rev_filter)
  also have "\<dots> = rev (filter (\<lambda>x. key x = k) (rev xs))"
    by (simp only: sort_key_stable)
  also have "\<dots> = filter (\<lambda>x. key x = k) xs"
    by (simp add: rev_filter)
  finally show ?thesis .
qed

lemma mset_sort_reverse: "mset (sort_reverse key xs) = mset xs"
  by (simp add: sort_reverse_def)

lemma first_seen_snoc:
  "first_seen (xs @ [x]) = (if x \<in> set xs then first_seen xs else first_seen xs @ [x])"
  by (simp add: first_seen_def)

lemma remdups_drop_repeated: "k \<in> set bs \<Longrightarrow> remdups (as @ k # bs) = remdups (as @ bs)"
  by (induction as) auto

lemma first_seen_drop_repeated: "k \<in> set xs \<Longrightarrow> first_seen (xs @ k # ys) = first_seen (xs @ ys)"
  by (simp add: first_seen_def remdups_drop_repeated)

lemma first_seen_distinct: "distinct xs \<Longrightarrow> first_seen xs = xs"
  by (simp add: first_seen_def distinct_remdups_id)

lemma keys_group_append:
  "map fst (group_append k v al) = (if k \<in> set (map fst al) then map fst al else map fst al @ [k])"
  by (induction al) force+

lemma keys_group_by_gpu:
  "distinct (map fst acc) \<Longrightarrow>
   map fst (group_by_gpu h xs acc) =
     first_seen (map fst acc @ map (\<lambda>a. model_name (h a)) (filter (\<lambda>a. grouped (h a)) xs))"
proof (induction xs arbitrary: acc)
  case Nil
  then show ?case by (simp add: first_seen_distinct)
next
  case (Cons x xs)
  show ?case
  proof (cases "grouped (h x)")
    case False
    then have "group_by_gpu h (x # xs) acc = group_by_gpu h xs acc"
      by (auto simp: grouped_def has_model_def split: option.splits)
    with False Cons show ?thesis by simp
  next
    case True
    then obtain gm where gm: "gpu_model (h x) = Some gm" "gm \<noteq> []" "normalized (h x) = Some True"
      by (auto simp: grouped_def has_model_def split: option.splits)
    then have step: "group_by_gpu h (x # xs) acc = group_by_gpu h xs (group_append gm x acc)"
      by simp
    have name: "model_name (h x) = gm" using gm by (simp add: model_name_def)
    have d: "distinct (map fst (group_append gm x acc))"
      using Cons.prems by (simp add: keys_group_append)
    let ?rest = "map (\<lambda>a. model_name (h a)) (filter (\<lambda>a. grouped (h a)) xs)"
    have "map fst (group_by_gpu h (x # xs) acc) =
          map fst (group_by_gpu h xs (group_append gm x acc))"
      by (simp only: step)
    also have "\<dots> = first_seen (map fst (group_append gm x acc) @ ?rest)"
      by (rule Cons.IH[OF d])
    also have "\<dots> = first_seen (map fst acc @ gm # ?rest)"
      by (cases "gm \<in> set (map fst acc)")
        (simp_all add: keys_group_append first_seen_drop_repeated)
    also have "gm # ?rest = map (\<lambda>a. model_name (h a)) (filter (\<lambda>a. grouped (h a)) (x # xs))"
      using True name by simp
    finally show ?thesis .
  qed
qed

lemma evaluate_group_model:
  "evaluate_group d h gm gpu_prices = Inr (Some opp) \<Longrightarrow> opp_gpu_model opp = gm"
  by (auto simp: evaluate_group_def Let_def split: if_splits sum.splits)

lemma find_opportunities_appends:
  "find_opportunities d h groups acc = Inr out \<Longrightarrow>
   \<exists>new. out = acc @ new \<and> subseq (map opp_gpu_model new) (map fst groups)"
proof (induction groups arbitrary: acc)
  case Nil
  then show ?case by simp
next
  case (Cons g groups)
  obtain gm gpu_prices where g: "g = (gm, gpu_prices)" by (cases g)
  show ?case
  proof (cases "evaluate_group d h gm gpu_prices")
    case (Inl e)
    with Cons.prems g show ?thesis by simp
  next
    case (Inr r)
    show ?thesis
    proof (cases r)
      case None
      with Inr Cons.prems g have "find_opportunities d h groups acc = Inr out" by simp
      from Cons.IH[OF this] obtain new where "out = acc @ new" "subseq (map opp_gpu_model new) (map fst groups)"
        by blast
      then show ?thesis using g by (auto intro: subseq_Cons')
    next
      case (Some opp)
      with Inr Cons.prems g have "find_opportunities d h groups (acc @ [opp]) = Inr out" by simp
      from Cons.IH[OF this] obtain new where new: "out = (acc @ [opp]) @ new"
        "subseq (map opp_gpu_model new) (map fst groups)"
        by blast
      have "opp_gpu_model opp = gm" using Inr Some by (simp add: evaluate_group_model)
      with new g show ?thesis by (intro exI[of _ "opp # new"]) simp
    qed
  qed
qed

lemma fst_detect_opportunities:
  "fst (detect_opportunities d h ps prec) =
     (\<lambda>a. if a \<in> set ps then contents_after (h a) prec True else h a)"
  by (simp add: detect_opportunities_def collect_opportunities_def normalize_prices_eq
      split: sum.splits)

lemma snd_collect_opportunities:
  "snd (collect_opportunities d h ps prec) =
     find_opportunities d (fst (detect_opportunities d h ps prec))
       (group_by_gpu (fst (detect_opportunities d h ps prec))
          (filter (\<lambda>a. has_model (h a)) ps) []) []"
  by (simp add: fst_detect_opportunities) (simp add: collect_opportunities_def normalize_prices_eq)

lemma snd_detect_opportunities:
  "snd (detect_opportunities d h ps prec) =
     (case snd (collect_opportunities d h ps prec) of
        Inl e \<Rightarrow> Inl e
      | Inr inserted \<Rightarrow> Inr (sort_reverse percentage_savings inserted))"
  by (simp add: detect_opportunities_def split: prod.splits sum.splits)

lemma grouped_after_normalization:
  "filter (\<lambda>a. grouped (fst (detect_opportunities d h ps prec) a)) (filter (\<lambda>a. has_model (h a)) ps) =
   filter (\<lambda>a. grouped (fst (detect_opportunities d h ps prec) a)) ps"
  by (auto simp: fst_detect_opportunities grouped_def intro!: filter_cong)

text \<open>
  Detection can raise: the percentage divides by the highest price of the group, and that
  price may be 0.
\<close>

lemma zero_price_group_raises:
  "snd (detect_opportunities default_detector free_heap [0, 1] ''fp32'') = Inl ZeroDivisionError"
  by code_simp

text \<open>
  C8: running \<open>detect_opportunities\<close> again on the same prices, in the store the first
  run left, gives the same outcome and leaves the store as it is. A returned list is in
  descending order of percentage savings; it is a rearrangement of the list the loop built
  in which opportunities with equal percentage keep the order of their insertion, and that
  insertion order follows the order in which the model names are first met among the
  normalized prices.
\<close>

theorem C8_deterministic_and_sorted:
  "detect_opportunities d (fst (detect_opportunities d h ps prec)) ps prec =
     detect_opportunities d h ps prec \<and>
   (\<forall>opps. snd (detect_opportunities d h ps prec) = Inr opps \<longrightarrow>
      sorted_wrt (\<lambda>x y. percentage_savings y \<le> percentage_savings x) opps \<and>
      (\<exists>inserted.
         snd (collect_opportunities d h ps prec) = Inr inserted \<and>
         mset opps = mset inserted \<and>
         (\<forall>p. filter (\<lambda>x. percentage_savings x = p) opps =
              filter (\<lambda>x. percentage_savings x = p) inserted) \<and>
         subseq (map opp_gpu_model inserted)
           (first_seen
              (map (\<lambda>a. model_name (fst (detect_opportunities d h ps prec) a))
                 (filter (\<lambda>a. grouped (fst (detect_opportunities d h ps prec) a)) ps)))))"
proof (intro conjI allI impI)
  show "detect_opportunities d (fst (detect_opportunities d h ps prec)) ps prec =
        detect_opportunities d h ps prec"
    by (rule detect_opportunities_idem)
next
  fix opps
  assume res: "snd (detect_opportunities d h ps prec) = Inr opps"
  let ?h = "fst (detect_opportunities d h ps prec)"
  from res obtain inserted where ins: "snd (collect_opportunities d h ps prec) = Inr inserted"
    and opps: "opps = sort_reverse percentage_savings inserted"
    by (auto simp: snd_detect_opportunities split: sum.splits)
  show "sorted_wrt (\<lambda>x y. percentage_savings y \<le> percentage_savings x) opps"
    by (simp add: opps sort_reverse_sorted)
  have found: "find_opportunities d ?h (group_by_gpu ?h (filter (\<lambda>a. has_model (h a)) ps) []) [] = Inr inserted"
    using ins by (simp only: snd_collect_opportunities)
  have keys: "map fst (group_by_gpu ?h (filter (\<lambda>a. has_model (h a)) ps) []) =
      first_seen (map (\<lambda>a. model_name (?h a)) (filter (\<lambda>a. grouped (?h a)) ps))"
    using keys_group_by_gpu[of "[]" ?h "filter (\<lambda>a. has_model (h a)) ps"]
    by (simp only: grouped_after_normalization list.map distinct.simps append_Nil)
  from find_opportunities_appends[OF found]
  have "subseq (map opp_gpu_model inserted)
          (map fst (group_by_gpu ?h (filter (\<lambda>a. has_model (h a)) ps) []))"
    by simp
  then have order: "subseq (map opp_gpu_model inserted)
      (first_seen (map (\<lambda>a. model_name (?h a)) (filter (\<lambda>a. grouped (?h a)) ps)))"
    by (simp only: keys)
  show "\<exists>inserted.
         snd (collect_opportunities d h ps prec) = Inr inserted \<and>
         mset opps = mset inserted \<and>
         (\<forall>p. filter (\<lambda>x. percentage_savings x = p) opps =
              filter (\<lambda>x. percentage_savings x = p) inserted) \<and>
         subseq (map opp_gpu_model inserted)
           (first_seen (map (\<lambda>a. model_name (?h a)) (filter (\<lambda>a. grouped (?h a)) ps)))"
    using ins order by (intro exI[of _ inserted]) (simp add: opps sort_reverse_stable mset_sort_reverse)
qed

text \<open>
  An instance: three models, two of them with the same percentage. The A100, met first,
  stays ahead of the H100.
\<close>

lemma market_detected:
  "snd (detect_opportunities default_detector market_heap [0, 1, 2, 3, 4, 5] ''fp32'') =
     Inr [\<lparr>opp_gpu_model = ''T4'', cheapest = 5, most_expensive = 2, price_difference = 1 / 2,
            percentage_savings = 50, all_providers = [5, 2]\<rparr>,
          \<lparr>opp_gpu_model = ''A100'', cheapest = 3, most_expensive = 0, price_difference = 10,
            percentage_savings = 100 / 3, all_providers = [3, 0]\<rparr>,
          \<lparr>opp_gpu_model = ''H100'', cheapest = 4, most_expensive = 1, price_difference = 20,
            percentage_savings = 100 / 3, all_providers = [4, 1]\<rparr>]"
  by code_simp

theorem C8_deterministic_and_sorted_witness:
  "snd (detect_opportunities default_detector
          (fst (detect_opportunities default_detector market_heap [0, 1, 2, 3, 4, 5] ''fp32''))
          [0, 1, 2, 3, 4, 5] ''fp32'') =
     Inr [\<lparr>opp_gpu_model = ''T4'', cheapest = 5, most_expensive = 2, price_difference = 1 / 2,
            percentage_savings = 50, all_providers = [5, 2]\<rparr>,
          \<lparr>opp_gpu_model = ''A100'', cheapest = 3, most_expensive = 0, price_difference = 10,
            percentage_savings = 100 / 3, all_providers = [3, 0]\<rparr>,
          \<lparr>opp_gpu_model = ''H100'', cheapest = 4, most_expensive = 1, price_difference = 20,
            percentage_savings = 100 / 3, all_providers = [4, 1]\<rparr>] \<and>
   sorted_wrt (\<lambda>x y. percentage_savings y \<le> percentage_savings x)
     [\<lparr>opp_gpu_model = ''T4'', cheapest = 5, most_expensive = 2, price_difference = 1 / 2,
        percentage_savings = 50, all_providers = [5, 2]\<rparr>,
      \<lparr>opp_gpu_model = ''A100'', cheapest = 3, most_expensive = 0, price_difference = 10,
        percentage_savings = 100 / 3, all_providers = [3, 0]\<rparr>,
      \<lparr>opp_gpu_model = ''H100'', cheapest = 4, most_expensive = 1, price_difference = 20,
        percentage_savings = 100 / 3, all_providers = [4, 1]\<rparr>]"
  using C8_deterministic_and_sorted[of default_detector market_heap "[0, 1, 2, 3, 4, 5]" "''fp32''"]
    market_detected
  by simp

text \<open>
  What the group-size test does guarantee: every opportunity is built from at least
  \<open>min_providers\<close> price entries.
\<close>

lemma price_keys_length: "price_keys h xs = Inr ks \<Longrightarrow> length ks = length xs"
  by (induction xs arbitrary: ks) (auto split: sum.splits)

lemma sorted_by_price_length: "sorted_by_price h xs = Inr ys \<Longrightarrow> length ys = length xs"
  by (auto simp: sorted_by_price_def price_keys_length split: sum.splits)

lemma evaluate_group_size:
  "evaluate_group d h gm gpu_prices = Inr (Some opp) \<Longrightarrow>
   min_providers d \<le> int (length (all_providers opp))"
  by (auto simp: evaluate_group_def Let_def sorted_by_price_length split: if_splits sum.splits)

lemma find_opportunities_sizes:
  "find_opportunities d h groups acc = Inr out \<Longrightarrow>
   \<forall>opp\<in>set acc. min_providers d \<le> int (length (all_providers opp)) \<Longrightarrow>
   \<forall>opp\<in>set out. min_providers d \<le> int (length (all_providers opp))"
proof (induction groups arbitrary: acc)
  case Nil
  then show ?case by simp
next
  case (Cons g groups)
  obtain gm gpu_prices where g: "g = (gm, gpu_prices)" by (cases g)
  show ?case
  proof (cases "evaluate_group d h gm gpu_prices")
    case (Inl e)
    with Cons.prems g show ?thesis by simp
  next
    case (Inr r)
    show ?thesis
    proof (cases r)
      case None
      with Inr Cons.prems g have "find_opportunities d h groups acc = Inr out" by simp
      from Cons.IH[OF this Cons.prems(2)] show ?thesis .
    next
      case (Some opp)
      with Inr Cons.prems g have f: "find_opportunities d h groups (acc @ [opp]) = Inr out" by simp
      have "min_providers d \<le> int (length (all_providers opp))"
        using Inr Some by (simp add: evaluate_group_size)
      with Cons.prems(2) have "\<forall>x\<in>set (acc @ [opp]). min_providers d \<le> int (length (all_providers x))"
        by simp
      from Cons.IH[OF f this] show ?thesis .
    qed
  qed
qed

lemma detect_opportunities_group_size:
  assumes "snd (detect_opportunities d h ps prec) = Inr opps"
  shows "\<forall>opp\<in>set opps. min_providers d \<le> int (length (all_providers opp))"
proof -
  from assms obtain inserted where ins: "snd (collect_opportunities d h ps prec) = Inr inserted"
    and opps: "opps = sort_reverse percentage_savings inserted"
    by (auto simp: snd_detect_opportunities split: sum.splits)
  from ins have "\<forall>opp\<in>set inserted. min_providers d \<le> int (length (all_providers opp))"
    by (simp only: snd_collect_opportunities) (erule find_opportunities_sizes, simp)
  moreover have "set opps = set inserted"
    using mset_sort_reverse[of percentage_savings inserted] opps by (metis set_mset_mset)
  ultimately show ?thesis by simp
qed

text \<open>
  C1: an opportunity should need \<open>min_providers\<close> different providers. The code
  compares the number of price entries of the group instead: two entries of one provider,
  in two regions, give an opportunity although only one provider offers the model.
\<close>

theorem C1_single_provider_opportunity:
  "min_providers default_detector = 2 \<and>
   snd (detect_opportunities default_detector one_provider_heap [0, 1] ''fp32'') =
     Inr [\<lparr>opp_gpu_model = ''A100'', cheapest = 1, most_expensive = 0, price_difference = 10,
            percentage_savings = 100 / 3, all_providers = [1, 0]\<rparr>] \<and>
   provider (one_provider_heap 0) = ''AWS'' \<and> provider (one_provider_heap 1) = ''AWS'' \<and>
   distinct_providers one_provider_heap [1, 0] = 1"
  by code_simp

section \<open>Properties of the collection scheduler\<close>

text \<open>
  The retry loop returns at the first attempt that succeeds; when every attempt raises it
  returns the failure record at the last one; when there is no attempt at all it returns
  \<open>None\<close>.
\<close>

lemma retry_loop_upt:
  "n = nat mr \<Longrightarrow>
   retry_loop mr name adapter [k..<n] =
     (case find (\<lambda>j. \<not> isl (adapter j)) [k..<n] of
        Some j \<Rightarrow>
          Some \<lparr>result_provider = name, success = True, prices = projr (adapter j),
                result_error = None, attempts = int j + 1\<rparr>
      | None \<Rightarrow>
          if k < n
          then Some \<lparr>result_provider = name, success = False, prices = [],
                     result_error = Some (projl (adapter (n - 1))), attempts = mr\<rparr>
          else None)"
proof (induction "n - k" arbitrary: k)
  case 0
  then show ?case by simp
next
  case (Suc d)
  then have lt: "k < n" by simp
  then have upt: "[k..<n] = k # [Suc k..<n]" by (rule upt_conv_Cons)
  show ?case
  proof (cases "adapter k")
    case (Inr ps)
    then show ?thesis by (simp add: upt)
  next
    case (Inl msg)
    show ?thesis
    proof (cases "Suc k < n")
      case True
      then have cond: "int k < mr - 1" using Suc.prems by linarith
      have d: "d = n - Suc k" using Suc.hyps(2) by simp
      show ?thesis
        using Suc.hyps(1)[OF d Suc.prems] Inl cond True lt
        by (simp add: upt)
    next
      case False
      then have last: "Suc k = n" using lt by simp
      then have cond: "\<not> int k < mr - 1" using Suc.prems by linarith
      have "[Suc k..<n] = []" using last by simp
      then show ?thesis
        using Inl cond lt last by (auto simp: upt)
    qed
  qed
qed

lemma fetch_with_retry_eq:
  "fetch_with_retry s name adapter =
     (case first_success (max_retries s) adapter of
        Some j \<Rightarrow>
          Some \<lparr>result_provider = name, success = True, prices = projr (adapter j),
                result_error = None, attempts = int j + 1\<rparr>
      | None \<Rightarrow>
          if 1 \<le> max_retries s
          then Some \<lparr>result_provider = name, success = False, prices = [],
                     result_error = Some (projl (adapter (nat (max_retries s) - 1))),
                     attempts = max_retries s\<rparr>
          else None)"
  unfolding fetch_with_retry_def first_success_def
  by (simp add: retry_loop_upt[OF refl] split: option.splits)

lemma fetch_with_retry_Some:
  assumes "1 \<le> max_retries s"
  shows "\<exists>r. fetch_with_retry s name adapter = Some r \<and>
             result_provider r = name \<and>
             success r = (first_success (max_retries s) adapter \<noteq> None) \<and>
             prices r = quotes_of (max_retries s) adapter \<and>
             (\<not> success r \<longrightarrow> result_error r \<noteq> None \<and> attempts r = max_retries s)"
proof (cases "first_success (max_retries s) adapter")
  case None
  then show ?thesis using assms by (simp add: fetch_with_retry_eq quotes_of_def)
next
  case (Some j)
  then have "\<not> isl (adapter j)" by (auto simp: first_success_def find_Some_iff)
  then have "(case adapter j of Inr ps \<Rightarrow> ps | Inl msg \<Rightarrow> []) = projr (adapter j)"
    by (cases "adapter j") simp_all
  with Some show ?thesis by (simp add: fetch_with_retry_eq quotes_of_def)
qed

lemma fetch_with_retry_None:
  "max_retries s \<le> 0 \<Longrightarrow> fetch_with_retry s name adapter = None"
  by (simp add: fetch_with_retry_def)

lemma aggregate_Some:
  "aggregate (map Some rs) acc =
     Inr (acc @ concat (map (\<lambda>r. if success r then prices r else []) rs))"
  by (induction rs arbitrary: acc) auto

lemma count_successful_Some:
  "count_successful (map Some rs) = Inr (length (filter success rs))"
  by (induction rs) auto

text \<open>
  With at least one attempt per adapter the cycle never raises, whatever the adapters do
  and in whatever order the workers finish, and its counters are those of the registry.
\<close>

lemma mset_completion_order:
  assumes "mset completion = mset [0..<length xs]"
  shows "mset (map (\<lambda>i. xs ! i) completion) = mset xs"
proof -
  have "mset (map (\<lambda>i. xs ! i) completion) = image_mset (\<lambda>i. xs ! i) (mset completion)"
    by simp
  also have "\<dots> = mset (map (\<lambda>i. xs ! i) [0..<length xs])"
    by (simp add: assms)
  also have "\<dots> = mset xs" by (simp add: map_nth)
  finally show ?thesis .
qed

lemma length_filter_mset_eq:
  "mset xs = mset ys \<Longrightarrow> length (filter P xs) = length (filter P ys)"
  by (metis mset_filter size_mset)

lemma sum_list_mset_eq:
  fixes g :: "'a \<Rightarrow> nat"
  shows "mset xs = mset ys \<Longrightarrow> sum_list (map g xs) = sum_list (map g ys)"
  by (metis mset_map sum_mset_sum_list)

lemma fetch_all_prices_order:
  assumes mr: "1 \<le> max_retries s"
    and ne: "in_parallel \<longrightarrow> providers s \<noteq> []"
  shows "\<exists>r. fetch_all_prices s in_parallel completion = Inr r \<and>
     (let order = (if in_parallel then map (\<lambda>i. providers s ! i) completion else providers s)
      in providers_queried r = length order \<and>
         providers_successful r =
           length (filter (\<lambda>(name, adapter). first_success (max_retries s) adapter \<noteq> None) order) \<and>
         total_prices r =
           sum_list (map (\<lambda>(name, adapter). length (quotes_of (max_retries s) adapter)) order) \<and>
         all_prices r = concat (map (\<lambda>(name, adapter). quotes_of (max_retries s) adapter) order) \<and>
         length (results r) = length order)"
proof -
  define order where "order = (if in_parallel then map (\<lambda>i. providers s ! i) completion else providers s)"
  define f where "f = (\<lambda>(name, adapter). the (fetch_with_retry s name adapter))"
  have some: "fetch_with_retry s name adapter = Some (f (name, adapter))" for name adapter
    using fetch_with_retry_Some[OF mr, of name adapter] by (auto simp: f_def)
  have rs: "map (\<lambda>(name, adapter). fetch_with_retry s name adapter) order = map Some (map f order)"
    by (simp add: some case_prod_beta)
  have succ: "success (f p) = (case p of (name, adapter) \<Rightarrow> first_success (max_retries s) adapter \<noteq> None)" for p
    using fetch_with_retry_Some[OF mr, of "fst p" "snd p"] some[of "fst p" "snd p"]
    by (cases p) auto
  have pr: "prices (f p) = (case p of (name, adapter) \<Rightarrow> quotes_of (max_retries s) adapter)" for p
    using fetch_with_retry_Some[OF mr, of "fst p" "snd p"] some[of "fst p" "snd p"]
    by (cases p) auto
  have empty: "first_success (max_retries s) adapter = None \<Longrightarrow> quotes_of (max_retries s) adapter = []" for adapter
    by (simp add: quotes_of_def)
  have contrib: "(if success (f p) then prices (f p) else []) =
      (case p of (name, adapter) \<Rightarrow> quotes_of (max_retries s) adapter)" for p
    by (cases p) (auto simp: succ pr empty)
  have agg: "aggregate (map Some (map f order)) [] =
      Inr (concat (map (\<lambda>(name, adapter). quotes_of (max_retries s) adapter) order))"
    by (simp only: aggregate_Some) (simp add: contrib comp_def)
  have cnt: "count_successful (map Some (map f order)) =
      Inr (length (filter (\<lambda>(name, adapter). first_success (max_retries s) adapter \<noteq> None) order))"
    by (simp only: count_successful_Some) (simp add: filter_map comp_def succ)
  have len: "length (concat (map (\<lambda>(name, adapter). quotes_of (max_retries s) adapter) order)) =
      sum_list (map (\<lambda>(name, adapter). length (quotes_of (max_retries s) adapter)) order)"
    by (simp add: length_concat comp_def case_prod_unfold)
  show ?thesis
    using ne unfolding fetch_all_prices_def Let_def order_def[symmetric]
    by (simp add: rs agg cnt len del: map_map)
qed


lemma fetch_all_prices_counts:
  assumes mr: "1 \<le> max_retries s"
    and par: "in_parallel \<longrightarrow>
                providers s \<noteq> [] \<and> mset completion = mset [0..<length (providers s)]"
  shows "\<exists>r. fetch_all_prices s in_parallel completion = Inr r \<and>
     providers_queried r = length (providers s) \<and>
     providers_successful r =
       length (filter (\<lambda>(name, adapter). first_success (max_retries s) adapter \<noteq> None)
                 (providers s)) \<and>
     providers_successful r \<le> providers_queried r \<and>
     total_prices r =
       sum_list (map (\<lambda>(name, adapter). length (quotes_of (max_retries s) adapter))
                   (providers s)) \<and>
     length (results r) = length (providers s) \<and>
     ((\<forall>(name, adapter)\<in>set (providers s). first_success (max_retries s) adapter = None) \<longrightarrow>
        providers_successful r = 0 \<and> total_prices r = 0)"
proof -
  define order where
    "order = (if in_parallel then map (\<lambda>i. providers s ! i) completion else providers s)"
  have ms: "mset order = mset (providers s)"
  proof (cases in_parallel)
    case True
    with par have "mset completion = mset [0..<length (providers s)]" by blast
    from mset_completion_order[OF this] True show ?thesis by (simp only: order_def if_True)
  next
    case False
    then show ?thesis by (simp add: order_def)
  qed
  then have len: "length order = length (providers s)"
    by (metis size_mset)
  from par have "in_parallel \<longrightarrow> providers s \<noteq> []" by simp
  from fetch_all_prices_order[OF mr this, of completion]
  obtain r where r: "fetch_all_prices s in_parallel completion = Inr r"
    and q: "providers_queried r = length order"
    and su: "providers_successful r =
       length (filter (\<lambda>(name, adapter). first_success (max_retries s) adapter \<noteq> None) order)"
    and tp: "total_prices r =
       sum_list (map (\<lambda>(name, adapter). length (quotes_of (max_retries s) adapter)) order)"
    and lr: "length (results r) = length order"
    unfolding Let_def order_def[symmetric] by blast
  have su': "providers_successful r =
       length (filter (\<lambda>(name, adapter). first_success (max_retries s) adapter \<noteq> None) (providers s))"
    using su length_filter_mset_eq[OF ms] by simp
  have tp': "total_prices r =
       sum_list (map (\<lambda>(name, adapter). length (quotes_of (max_retries s) adapter)) (providers s))"
    using tp sum_list_mset_eq[OF ms] by simp
  have le: "providers_successful r \<le> providers_queried r"
    by (simp add: su' q len)
  have none: "providers_successful r = 0 \<and> total_prices r = 0"
    if "\<forall>(name, adapter)\<in>set (providers s). first_success (max_retries s) adapter = None"
  proof -
    from that have "filter (\<lambda>(name, adapter). first_success (max_retries s) adapter \<noteq> None) (providers s) = []"
      by (auto simp: filter_empty_conv)
    moreover from that have "\<forall>p\<in>set (providers s). (case p of (name, adapter) \<Rightarrow> length (quotes_of (max_retries s) adapter)) = 0"
      by (auto simp: quotes_of_def)
    then have "sum_list (map (\<lambda>(name, adapter). length (quotes_of (max_retries s) adapter)) (providers s)) = 0"
      by (simp add: sum_list_eq_0_iff)
    ultimately show ?thesis by (simp add: su' tp')
  qed
  show ?thesis
    using r q len su' tp' le lr none by (intro exI[of _ r]) simp
qed

text \<open>Two cycles: a mixed one in parallel mode, and one in which every adapter fails.\<close>

lemma example_cycle:
  "fetch_all_prices example_scheduler True [2, 0, 1] =
     Inr \<lparr>providers_queried = 3, providers_successful = 2, total_prices = 3,
          results =
            [Some \<lparr>result_provider = ''Azure'', success = True, prices = [2],
                   result_error = None, attempts = 3\<rparr>,
             Some \<lparr>result_provider = ''AWS'', success = True, prices = [0, 1],
                   result_error = None, attempts = 1\<rparr>,
             Some \<lparr>result_provider = ''GCP'', success = False, prices = [],
                   result_error = Some ''connection refused'', attempts = 3\<rparr>],
          all_prices = [2, 0, 1]\<rparr>"
  by code_simp

lemma failing_cycle:
  "fetch_all_prices failing_scheduler False [] =
     Inr \<lparr>providers_queried = 2, providers_successful = 0, total_prices = 0,
          results =
            [Some \<lparr>result_provider = ''AWS'', success = False, prices = [],
                   result_error = Some ''connection refused'', attempts = 3\<rparr>,
             Some \<lparr>result_provider = ''GCP'', success = False, prices = [],
                   result_error = Some ''connection refused'', attempts = 3\<rparr>],
          all_prices = []\<rparr>"
  by code_simp

text \<open>Without an attempt every result is \<open>None\<close> and the aggregation raises.\<close>

lemma fetch_all_prices_no_attempt:
  assumes "max_retries s \<le> 0" and "providers s \<noteq> []"
  shows "fetch_all_prices s False completion = Inl TypeError"
proof -
  obtain name adapter rest where p: "providers s = (name, adapter) # rest"
    using assms(2) by (cases "providers s") auto
  show ?thesis
    using assms(1) by (simp add: fetch_all_prices_def p fetch_with_retry_None)
qed

text \<open>
  C2: a cycle over a non-empty registry should return its result whatever the adapters do.
  For a scheduler built with \<open>max_retries = 0\<close> the retry loop makes no attempt and
  returns \<open>None\<close>, and \<open>fetch_all_prices\<close> raises \<open>TypeError\<close> in both modes, although
  no adapter failed.
\<close>

theorem C2_zero_retries_raises:
  "max_retries no_retry_scheduler = 0 \<and>
   fetch_with_retry no_retry_scheduler ''AWS'' steady_adapter = None \<and>
   fetch_all_prices no_retry_scheduler False [] = Inl TypeError \<and>
   fetch_all_prices no_retry_scheduler True [0] = Inl TypeError"
  by code_simp

section \<open>Properties of the cache\<close>

lemma cache_set_Inr:
  "cache_set c now key v = Inr c' \<Longrightarrow>
   ttl_seconds c' = ttl_seconds c \<and>
   cache c' = AList.update key
     \<lparr>entry_value = v, expires_at = now + ttl_seconds c * 1000000, created_at = now\<rparr> (cache c)"
  by (auto simp: cache_set_def add_seconds_def Let_def split: if_splits)

lemma count_without_key:
  "distinct (map fst al) \<Longrightarrow> map_of al k = Some e \<Longrightarrow>
   length (filter P (map snd al)) =
     (if P e then 1 else 0) + length (filter P (map snd (AList.delete k al)))"
proof (induction al)
  case Nil
  then show ?case by simp
next
  case (Cons p al)
  obtain k' e' where p: "p = (k', e')" by (cases p)
  show ?case
  proof (cases "k' = k")
    case True
    with Cons.prems p have "e' = e" and "k \<notin> fst ` set al" by auto
    then have "AList.delete k al = al" by (simp add: delete_id)
    with True p \<open>e' = e\<close> show ?thesis by simp
  next
    case False
    with Cons p show ?thesis by auto
  qed
qed

lemma length_without_key:
  "distinct (map fst al) \<Longrightarrow> map_of al k = Some e \<Longrightarrow>
   length al = Suc (length (AList.delete k al))"
  using count_without_key[of al k e "\<lambda>_. True"] by simp

text \<open>
  C5: after \<open>set(k, v)\<close> at the instant \<open>t0\<close> on a cache with TTL \<open>t\<close>, a
  \<open>get(k)\<close> up to \<open>t0 + t\<close> returns \<open>v\<close> and leaves the cache as it is; a
  \<open>get(k)\<close> after \<open>t0 + t\<close> returns a miss and deletes the entry; and \<open>stats()\<close>
  after \<open>t0 + t\<close> counts the entry among the expired ones, not the active ones: compared
  with the cache without the entry, the expired count is one higher and the active count
  is the same.
\<close>

theorem C5_expiry_on_read:
  assumes "distinct (map fst (cache c))" and "cache_set c t0 k v = Inr c1"
  shows "(t1 \<le> t0 + ttl_seconds c * 1000000 \<longrightarrow> cache_get c1 t1 k = (c1, Some v)) \<and>
         (t0 + ttl_seconds c * 1000000 < t1 \<longrightarrow>
            snd (cache_get c1 t1 k) = None \<and>
            cache (fst (cache_get c1 t1 k)) = AList.delete k (cache c1) \<and>
            k \<notin> fst ` set (cache (fst (cache_get c1 t1 k))) \<and>
            expired_entries (stats c1 t1) = expired_entries (stats (fst (cache_get c1 t1 k)) t1) + 1 \<and>
            active_entries (stats c1 t1) = active_entries (stats (fst (cache_get c1 t1 k)) t1) \<and>
            total_entries (stats c1 t1) = total_entries (stats (fst (cache_get c1 t1 k)) t1) + 1)"
proof -
  let ?e = "\<lparr>entry_value = v, expires_at = t0 + ttl_seconds c * 1000000, created_at = t0\<rparr>"
  from cache_set_Inr[OF assms(2)]
  have c1: "cache c1 = AList.update k ?e (cache c)" by simp
  have look: "map_of (cache c1) k = Some ?e" by (simp add: c1 update_conv')
  have dist: "distinct (map fst (cache c1))" using assms(1) by (simp add: c1 distinct_update)
  show ?thesis
  proof (intro conjI impI)
    assume "t1 \<le> t0 + ttl_seconds c * 1000000"
    then show "cache_get c1 t1 k = (c1, Some v)"
      by (simp add: cache_get_def look is_expired_def)
  next
    assume late: "t0 + ttl_seconds c * 1000000 < t1"
    then have get: "cache_get c1 t1 k = (c1\<lparr>cache := AList.delete k (cache c1)\<rparr>, None)"
      by (simp add: cache_get_def look is_expired_def)
    show "snd (cache_get c1 t1 k) = None" by (simp add: get)
    show "cache (fst (cache_get c1 t1 k)) = AList.delete k (cache c1)" by (simp add: get)
    show "k \<notin> fst ` set (cache (fst (cache_get c1 t1 k)))"
      by (simp add: get delete_notin_dom)
    have exp: "is_expired t1 ?e" using late by (simp add: is_expired_def)
    have cnt: "length (filter (is_expired t1) (map snd (cache c1))) =
        1 + length (filter (is_expired t1) (map snd (AList.delete k (cache c1))))"
      using count_without_key[OF dist look, of "is_expired t1"] exp by simp
    have len: "length (cache c1) = Suc (length (AList.delete k (cache c1)))"
      by (rule length_without_key[OF dist look])
    show "expired_entries (stats c1 t1) = expired_entries (stats (fst (cache_get c1 t1 k)) t1) + 1"
      using cnt by (simp add: get stats_def Let_def)
    show "active_entries (stats c1 t1) = active_entries (stats (fst (cache_get c1 t1 k)) t1)"
      using cnt len by (simp add: get stats_def Let_def)
    show "total_entries (stats c1 t1) = total_entries (stats (fst (cache_get c1 t1 k)) t1) + 1"
      using len by (simp add: get stats_def Let_def)
  qed
qed

text \<open>An instance: a TTL of five seconds, read just before and just after expiry.\<close>

lemma example_set:
  "cache_set (PriceCache 5) 1000000 ''latest_prices'' 42 = Inr example_cache"
  by (simp add: cache_set_def PriceCache_def add_seconds_def datetime_max_def example_cache_def)

theorem C5_expiry_on_read_witness:
  "distinct (map fst (cache (PriceCache 5 :: nat price_cache))) \<and>
   cache_set (PriceCache 5) 1000000 ''latest_prices'' 42 = Inr example_cache \<and>
   cache_get example_cache 5999999 ''latest_prices'' = (example_cache, Some 42) \<and>
   snd (cache_get example_cache 6000001 ''latest_prices'') = None \<and>
   cache (fst (cache_get example_cache 6000001 ''latest_prices'')) = [] \<and>
   expired_entries (stats example_cache 6000001) = 1 \<and>
   active_entries (stats example_cache 6000001) = 0"
proof -
  have d: "distinct (map fst (cache (PriceCache 5 :: nat price_cache)))"
    by (simp add: PriceCache_def)
  have ttl: "ttl_seconds (PriceCache 5 :: nat price_cache) = 5"
    by (simp add: PriceCache_def)
  from C5_expiry_on_read[OF d example_set, of 5999999] C5_expiry_on_read[OF d example_set, of 6000001]
  show ?thesis
    using d example_set
    by (simp add: ttl) (simp add: example_cache_def stats_def is_expired_def)
qed

text \<open>
  No method of a cache changes its TTL, and nothing but the first \<open>get_cache\<close> assigns
  the module variable.
\<close>

lemma ttl_cache_set: "cache_set c now key v = Inr c' \<Longrightarrow> ttl_seconds c' = ttl_seconds c"
  by (simp add: cache_set_Inr)

lemma ttl_cache_get [simp]: "ttl_seconds (fst (cache_get c now key)) = ttl_seconds c"
  by (simp add: cache_get_def split: option.splits)

lemma ttl_cache_delete [simp]: "ttl_seconds (fst (cache_delete c key)) = ttl_seconds c"
  by (simp add: cache_delete_def)

lemma ttl_cache_clear [simp]: "ttl_seconds (cache_clear c) = ttl_seconds c"
  by (simp add: cache_clear_def)

lemma ttl_cleanup_expired [simp]: "ttl_seconds (fst (cleanup_expired c now)) = ttl_seconds c"
  by (simp add: cleanup_expired_def Let_def)

lemma on_object_keeps:
  assumes "\<And>c. ttl_seconds (f c) = ttl_seconds c"
    and "global_cache m = Some r" and "r < length (objects m)"
  shows "global_cache (on_object r' f m) = Some r \<and> r < length (objects (on_object r' f m)) \<and>
         ttl_seconds (objects (on_object r' f m) ! r) = ttl_seconds (objects m ! r)"
  using assms by (auto simp: on_object_def nth_list_update)

lemma step_keeps_singleton:
  assumes "global_cache m = Some r" and "r < length (objects m)"
  shows "global_cache (step call m) = Some r \<and> r < length (objects (step call m)) \<and>
         ttl_seconds (objects (step call m) ! r) = ttl_seconds (objects m ! r)"
proof (cases call)
  case (GetCache ttl)
  with assms show ?thesis by (simp add: get_cache_def)
next
  case (NewCache ttl)
  with assms show ?thesis by (simp add: nth_append)
next
  case (CallSet r' now key v)
  have "ttl_seconds (case cache_set c now key v of Inl e \<Rightarrow> c | Inr c' \<Rightarrow> c') = ttl_seconds c" for c :: "'a price_cache"
    by (cases "cache_set c now key v") (simp_all add: ttl_cache_set)
  from on_object_keeps[of _ m r r', OF this assms] CallSet show ?thesis by simp
next
  case (CallGet r' now key)
  from on_object_keeps[of "\<lambda>c. fst (cache_get c now key)" m r r', OF ttl_cache_get assms] CallGet
  show ?thesis by simp
next
  case (CallDelete r' key)
  from on_object_keeps[of "\<lambda>c. fst (cache_delete c key)" m r r', OF ttl_cache_delete assms] CallDelete
  show ?thesis by simp
next
  case (CallClear r')
  from on_object_keeps[of cache_clear m r r', OF ttl_cache_clear assms] CallClear
  show ?thesis by simp
next
  case (CallCleanup r' now)
  from on_object_keeps[of "\<lambda>c. fst (cleanup_expired c now)" m r r', OF ttl_cleanup_expired assms] CallCleanup
  show ?thesis by simp
qed

lemma run_keeps_singleton:
  "global_cache m = Some r \<Longrightarrow> r < length (objects m) \<Longrightarrow>
   global_cache (run calls m) = Some r \<and> r < length (objects (run calls m)) \<and>
   ttl_seconds (objects (run calls m) ! r) = ttl_seconds (objects m ! r)"
proof (induction calls arbitrary: m)
  case Nil
  then show ?case by simp
next
  case (Cons call calls)
  from step_keeps_singleton[OF Cons.prems, of call]
  have s: "global_cache (step call m) = Some r" "r < length (objects (step call m))"
    "ttl_seconds (objects (step call m) ! r) = ttl_seconds (objects m ! r)"
    by simp_all
  from Cons.IH[OF s(1) s(2)] s(3) show ?case by simp
qed

text \<open>
  C10: the first \<open>get_cache(t)\<close> creates a \<open>PriceCache\<close> with TTL \<open>t\<close>; after any
  further calls of the module's functions and of the caches' methods, \<open>get_cache(t')\<close>
  returns that same object, changes nothing, and the object's TTL is still \<open>t\<close>.
\<close>

theorem C10_singleton_keeps_first_ttl:
  assumes "global_cache m = None"
  shows "snd (get_cache t' (run calls (fst (get_cache t m)))) = snd (get_cache t m) \<and>
         fst (get_cache t' (run calls (fst (get_cache t m)))) = run calls (fst (get_cache t m)) \<and>
         snd (get_cache t m) < length (objects (run calls (fst (get_cache t m)))) \<and>
         ttl_seconds (objects (run calls (fst (get_cache t m))) ! snd (get_cache t m)) = t \<and>
         objects (fst (get_cache t m)) ! snd (get_cache t m) = PriceCache t"
proof -
  let ?m1 = "fst (get_cache t m)" and ?r = "snd (get_cache t m)"
  have g: "global_cache ?m1 = Some ?r" and l: "?r < length (objects ?m1)"
    and o: "objects ?m1 ! ?r = PriceCache t"
    using assms by (simp_all add: get_cache_def)
  from run_keeps_singleton[OF g l, of calls]
  have k: "global_cache (run calls ?m1) = Some ?r" "?r < length (objects (run calls ?m1))"
    "ttl_seconds (objects (run calls ?m1) ! ?r) = ttl_seconds (objects ?m1 ! ?r)"
    by simp_all
  have "get_cache t' (run calls ?m1) = (run calls ?m1, ?r)"
    using k(1) by (simp add: get_cache_def)
  then show ?thesis using k o by (simp add: PriceCache_def)
qed

text \<open>An instance: created with 300, asked again with 5 and with 60.\<close>

theorem C10_singleton_keeps_first_ttl_witness:
  "global_cache fresh_module = None \<and>
   snd (get_cache 300 fresh_module) = 0 \<and>
   snd (get_cache 60
          (run [CallSet 0 1000000 ''k'' 7, NewCache 10, GetCache 5, CallGet 0 2000000 ''k'']
             (fst (get_cache 300 fresh_module)))) = 0 \<and>
   ttl_seconds
     (objects (run [CallSet 0 1000000 ''k'' 7, NewCache 10, GetCache 5, CallGet 0 2000000 ''k'']
                 (fst (get_cache 300 fresh_module))) ! 0) = 300"
proof -
  have n: "global_cache fresh_module = None" by (simp add: fresh_module_def)
  have r: "snd (get_cache 300 fresh_module) = 0" by (simp add: get_cache_def fresh_module_def)
  from C10_singleton_keeps_first_ttl[OF n, of 60
      "[CallSet 0 1000000 ''k'' 7, NewCache 10, GetCache 5, CallGet 0 2000000 ''k'']" 300]
  show ?thesis using n r by simp
qed

end
